theory Spec2Isabelle
  imports Complex_Main
begin

section \<open>Data model of the canvas manager (src/js/canvas.js)\<close>

text \<open>
  Coordinates are JavaScript numbers and are carried as real numbers. The editor, the
  playback and the view transform are modelled in exact arithmetic; the geometry
  utilities round every operation to a double.
  A point is the object \<open>{x, y}\<close>, a robot pose is \<open>{x, y, heading}\<close>.
\<close>

record point =
  px :: real
  py :: real

record pose = point +
  heading :: real

datatype obstacle_type = Static | Dynamic

text \<open>An obstacle is the object \<open>{id, points, type}\<close> pushed by the finish handlers.\<close>

record obstacle =
  oid :: string
  points :: "point list"
  otype :: obstacle_type

text \<open>The four mode strings \<open>ready\<close>, \<open>boundary\<close>, \<open>obstacle\<close>, \<open>obstacle-dynamic\<close>.\<close>

datatype mode = Ready | Boundary | Obstacle | ObstacleDynamic

text \<open>
  The fields of \<open>CanvasManager\<close> that carry editor state. The DOM canvas, the drawing
  context and the colour table are output only and are left out.
\<close>

record canvas =
  boundary :: "point list"
  obstacles :: "obstacle list"
  dynamicObstacles :: "obstacle list"
  plannedPath :: "point list"
  currentPath :: "point list"
  robotPosition :: "pose option"
  mode :: mode
  currentObstacle :: "point list"
  highlightedObstacle :: "string option"
  scale :: real
  panX :: real
  panY :: real
  isPanning :: bool
  lastPanPoint :: point
  mousePosition :: "point option"

definition minScale :: real where
  "minScale = 2 / 10"

definition maxScale :: real where
  "maxScale = 5"

text \<open>The state built by the constructor.\<close>

definition initCanvas :: canvas where
  "initCanvas =
     \<lparr> boundary = [], obstacles = [], dynamicObstacles = [], plannedPath = [],
       currentPath = [], robotPosition = None, mode = Ready, currentObstacle = [],
       highlightedObstacle = None, scale = 1, panX = 0, panY = 0, isPanning = False,
       lastPanPoint = \<lparr> px = 0, py = 0 \<rparr>, mousePosition = None \<rparr>"

section \<open>Drawing state machine\<close>

text \<open>
  \<open>setMode\<close>: on the way to \<open>ready\<close> a boundary of one or two points is dropped; in
  every case the mode is written and the obstacle buffer and the preview position are
  cleared.
\<close>

definition setMode :: "mode \<Rightarrow> 'a canvas_scheme \<Rightarrow> 'a canvas_scheme" where
  "setMode newMode s =
     (let s1 = (if newMode = Ready
                then (let s0 = (if length (boundary s) > 0 \<and> length (boundary s) < 3
                                then s\<lparr>boundary := []\<rparr> else s)
                      in s0\<lparr>currentObstacle := []\<rparr>)
                else s)
      in s1\<lparr>mode := newMode, currentObstacle := [], mousePosition := None\<rparr>)"

definition addBoundaryPoint :: "point \<Rightarrow> 'a canvas_scheme \<Rightarrow> 'a canvas_scheme" where
  "addBoundaryPoint pos s = s\<lparr>boundary := boundary s @ [pos]\<rparr>"

definition finishBoundary :: "'a canvas_scheme \<Rightarrow> 'a canvas_scheme" where
  "finishBoundary s =
     (if length (boundary s) \<ge> 3 then setMode Ready s
      else if length (boundary s) > 0 then setMode Ready (s\<lparr>boundary := []\<rparr>)
      else s)"

definition addObstaclePoint :: "point \<Rightarrow> 'a canvas_scheme \<Rightarrow> 'a canvas_scheme" where
  "addObstaclePoint pos s = s\<lparr>currentObstacle := currentObstacle s @ [pos]\<rparr>"

definition addDynamicObstaclePoint :: "point \<Rightarrow> 'a canvas_scheme \<Rightarrow> 'a canvas_scheme" where
  "addDynamicObstaclePoint pos s = s\<lparr>currentObstacle := currentObstacle s @ [pos]\<rparr>"

subsection \<open>Obstacle identifiers\<close>

text \<open>
  The identifier is a template string around \<open>Date.now()\<close>. The clock reading is an
  input of the model (milliseconds, a natural number); \<open>show_nat\<close> is its decimal
  rendering.
\<close>

definition digit_char :: "nat \<Rightarrow> char" where
  "digit_char d = ''0123456789'' ! d"

function show_nat :: "nat \<Rightarrow> string" where
  "show_nat n = (if n < 10 then [digit_char n]
                 else show_nat (n div 10) @ [digit_char (n mod 10)])"
  by pat_completeness auto
termination
  by (relation "measure (\<lambda>n. n)") auto

declare show_nat.simps [simp del]

definition finishObstacle :: "nat \<Rightarrow> 'a canvas_scheme \<Rightarrow> 'a canvas_scheme" where
  "finishObstacle now s =
     (if length (currentObstacle s) \<ge> 3
      then (let obstacleId = ''obstacle_'' @ show_nat now;
                s1 = s\<lparr>obstacles := obstacles s @
                         [\<lparr> oid = obstacleId, points = currentObstacle s, otype = Static \<rparr>]\<rparr>;
                s2 = s1\<lparr>currentObstacle := []\<rparr>
            in setMode Ready s2)
      else if length (currentObstacle s) > 0
      then setMode Ready (s\<lparr>currentObstacle := []\<rparr>)
      else s)"

definition finishDynamicObstacle :: "nat \<Rightarrow> 'a canvas_scheme \<Rightarrow> 'a canvas_scheme" where
  "finishDynamicObstacle now s =
     (if length (currentObstacle s) \<ge> 3
      then (let obstacleId = ''dynamic_'' @ show_nat now;
                s1 = s\<lparr>dynamicObstacles := dynamicObstacles s @
                         [\<lparr> oid = obstacleId, points = currentObstacle s, otype = Dynamic \<rparr>]\<rparr>;
                s2 = s1\<lparr>currentObstacle := []\<rparr>
            in setMode Ready s2)
      else setMode Ready (s\<lparr>currentObstacle := []\<rparr>))"

subsection \<open>Pointer input\<close>

text \<open>\<open>getMousePosition\<close>: canvas coordinates to world coordinates.\<close>

definition getMousePosition :: "real \<Rightarrow> real \<Rightarrow> 'a canvas_scheme \<Rightarrow> point" where
  "getMousePosition canvasX canvasY s =
     \<lparr> px = (canvasX - panX s) / scale s, py = (canvasY - panY s) / scale s \<rparr>"

definition handleClick :: "real \<Rightarrow> real \<Rightarrow> 'a canvas_scheme \<Rightarrow> 'a canvas_scheme" where
  "handleClick canvasX canvasY s =
     (let pos = getMousePosition canvasX canvasY s
      in case mode s of
           Boundary \<Rightarrow> addBoundaryPoint pos s
         | Obstacle \<Rightarrow> addObstaclePoint pos s
         | ObstacleDynamic \<Rightarrow> addDynamicObstaclePoint pos s
         | Ready \<Rightarrow> s)"

definition handleRightClick :: "nat \<Rightarrow> 'a canvas_scheme \<Rightarrow> 'a canvas_scheme" where
  "handleRightClick now s =
     (if mode s = Boundary \<and> length (boundary s) \<ge> 3 then finishBoundary s
      else if mode s = Obstacle \<and> length (currentObstacle s) \<ge> 3 then finishObstacle now s
      else if mode s = ObstacleDynamic \<and> length (currentObstacle s) \<ge> 3
      then finishDynamicObstacle now s
      else s)"

subsection \<open>Registry and reset\<close>

definition removeObstacle :: "string \<Rightarrow> 'a canvas_scheme \<Rightarrow> 'a canvas_scheme" where
  "removeObstacle obstacleId s =
     s\<lparr>obstacles := filter (\<lambda>obs. oid obs \<noteq> obstacleId) (obstacles s),
       dynamicObstacles := filter (\<lambda>obs. oid obs \<noteq> obstacleId) (dynamicObstacles s)\<rparr>"

definition setHighlightedObstacle :: "string \<Rightarrow> 'a canvas_scheme \<Rightarrow> 'a canvas_scheme" where
  "setHighlightedObstacle obstacleId s = s\<lparr>highlightedObstacle := Some obstacleId\<rparr>"

definition clearHighlightedObstacle :: "'a canvas_scheme \<Rightarrow> 'a canvas_scheme" where
  "clearHighlightedObstacle s = s\<lparr>highlightedObstacle := None\<rparr>"

text \<open>\<open>reset\<close> of the canvas manager: the pan goes back to the origin, the zoom level is kept.\<close>

definition reset :: "'a canvas_scheme \<Rightarrow> 'a canvas_scheme" where
  "reset s =
     setMode Ready
       (s\<lparr>boundary := [], obstacles := [], dynamicObstacles := [], plannedPath := [],
          currentPath := [], robotPosition := None, currentObstacle := [],
          panX := 0, panY := 0\<rparr>)"

definition setPlannedPath :: "point list \<Rightarrow> 'a canvas_scheme \<Rightarrow> 'a canvas_scheme" where
  "setPlannedPath path s = s\<lparr>plannedPath := path\<rparr>"

definition updateRobotPosition :: "pose \<Rightarrow> 'a canvas_scheme \<Rightarrow> 'a canvas_scheme" where
  "updateRobotPosition position s = s\<lparr>robotPosition := Some position\<rparr>"

section \<open>Reset\<close>

text \<open>
  C10. The canvas reset empties the boundary, the static and the dynamic obstacle
  collections, the planned and the current path, the in-progress buffer and the robot
  position, puts the pan offset at (0, 0) and ends in mode ready; the zoom scale is the
  one before the reset (it is not put back to 1).
\<close>

theorem reset_clears_but_keeps_scale:
  "boundary (reset s) = [] \<and> obstacles (reset s) = [] \<and> dynamicObstacles (reset s) = []
   \<and> plannedPath (reset s) = [] \<and> currentPath (reset s) = []
   \<and> currentObstacle (reset s) = [] \<and> robotPosition (reset s) = None
   \<and> panX (reset s) = 0 \<and> panY (reset s) = 0 \<and> mode (reset s) = Ready
   \<and> scale (reset s) = scale s"
  by (simp add: reset_def setMode_def)

section \<open>Playback controller (class ControlsManager)\<close>

text \<open>
  The controls manager holds a reference to the canvas manager and writes its fields; the
  model puts both objects in one record. \<open>timers\<close> counts the callbacks handed to
  \<open>setTimeout\<close> that have not fired yet. Writes to the DOM (button states, status
  texts) are output only and are left out.
\<close>

record controls = canvas +
  isRunning :: bool
  isPaused :: bool
  currentSpeed :: int
  obstacleCounter :: nat
  currentIndex :: nat
  progress :: real
  timers :: nat

definition initControls :: controls where
  "initControls =
     \<lparr> boundary = [], obstacles = [], dynamicObstacles = [], plannedPath = [],
       currentPath = [], robotPosition = None, mode = Ready, currentObstacle = [],
       highlightedObstacle = None, scale = 1, panX = 0, panY = 0, isPanning = False,
       lastPanPoint = \<lparr> px = 0, py = 0 \<rparr>, mousePosition = None,
       isRunning = False, isPaused = False, currentSpeed = 5, obstacleCounter = 1,
       currentIndex = 0, progress = 0, timers = 0 \<rparr>"

text \<open>\<open>Math.atan2(y, x)\<close> on reals (signed zeros are not distinguished).\<close>

definition atan2 :: "real \<Rightarrow> real \<Rightarrow> real" where
  "atan2 y x =
     (if x > 0 then arctan (y / x)
      else if x < 0 \<and> y \<ge> 0 then arctan (y / x) + pi
      else if x < 0 then arctan (y / x) - pi
      else if y > 0 then pi / 2
      else if y < 0 then - (pi / 2)
      else 0)"

definition stop :: "controls \<Rightarrow> controls" where
  "stop s = s\<lparr>isRunning := False, isPaused := False, currentIndex := 0, progress := 0,
              robotPosition := None\<rparr>"

text \<open>The delay handed to \<open>setTimeout\<close>, in milliseconds.\<close>

definition tickDelay :: "controls \<Rightarrow> int" where
  "tickDelay s = max 50 (500 - currentSpeed s * 45)"

text \<open>
  One run of the closure \<open>animate\<close> over the path captured by \<open>startSimulation\<close>.
  \<open>currentIndex >= path.length - 1\<close> is written without the subtraction. Past that
  test \<open>path[currentIndex + 1]\<close> is in range, so the guard \<open>if (next)\<close> holds.
\<close>

definition animate :: "point list \<Rightarrow> controls \<Rightarrow> controls" where
  "animate path s =
     (if \<not> isRunning s \<or> isPaused s then s
      else if currentIndex s + 1 \<ge> length path then stop s
      else (let current = path ! currentIndex s;
                next = path ! (currentIndex s + 1);
                hdg = atan2 (py next - py current) (px next - px current);
                s1 = updateRobotPosition \<lparr> px = px current, py = py current, heading = hdg \<rparr> s;
                s2 = s1\<lparr>progress := (real (currentIndex s1 + 1) / real (length path)) * 100\<rparr>;
                s3 = s2\<lparr>currentIndex := currentIndex s2 + 1\<rparr>
            in s3\<lparr>timers := timers s3 + 1\<rparr>))"

text \<open>A pending timer fires: one callback fewer is pending and \<open>animate\<close> runs.\<close>

definition tick :: "point list \<Rightarrow> controls \<Rightarrow> controls" where
  "tick path s = (if timers s = 0 then s else animate path (s\<lparr>timers := timers s - 1\<rparr>))"

definition startSimulation :: "controls \<Rightarrow> controls" where
  "startSimulation s =
     (if \<not> isRunning s then s
      else (let path = plannedPath s
            in if length path = 0 then s
               else (let s1 = (if \<not> isPaused s \<and> currentIndex s = 0
                               then s\<lparr>currentIndex := 0, progress := 0\<rparr> else s)
                     in animate path s1)))"

text \<open>\<open>run\<close> with an empty path shows an alert and returns.\<close>

definition run_alert :: "controls \<Rightarrow> string option" where
  "run_alert s = (if length (plannedPath s) = 0 then Some ''Please generate a path first'' else None)"

definition run :: "controls \<Rightarrow> controls" where
  "run s =
     (if length (plannedPath s) = 0 then s
      else startSimulation
             (s\<lparr>isRunning := True, isPaused := False, currentIndex := 0, progress := 0\<rparr>))"

definition pause :: "controls \<Rightarrow> controls" where
  "pause s = s\<lparr>isPaused := True\<rparr>"

definition resume :: "controls \<Rightarrow> controls" where
  "resume s =
     (if isRunning s \<and> isPaused s then startSimulation (s\<lparr>isPaused := False\<rparr>) else s)"

text \<open>The space-key case of \<open>handleKeyboard\<close>: it pauses a running simulation and
  calls \<open>run\<close> on a paused one.\<close>

definition handleSpace :: "controls \<Rightarrow> controls" where
  "handleSpace s =
     (if isRunning s \<and> \<not> isPaused s then pause s
      else if isPaused s then run s
      else s)"

text \<open>\<open>reset\<close> of the controls manager.\<close>

definition controls_reset :: "controls \<Rightarrow> controls" where
  "controls_reset s = (reset (stop s))\<lparr>obstacleCounter := 1\<rparr>"

section \<open>Playback: the cursor across pause, resume, stop and run\<close>

lemma resume_after_pause:
  assumes "isRunning s" and "\<not> isPaused s" and "plannedPath s \<noteq> []"
  shows "resume (pause s) = animate (plannedPath s) s"
  using assms
  by (cases s)
     (auto simp: resume_def pause_def startSimulation_def animate_def stop_def Let_def
        updateRobotPosition_def)

lemma animate_advances:
  assumes "isRunning s" and "\<not> isPaused s" and "currentIndex s + 1 < length path"
  shows "currentIndex (animate path s) = currentIndex s + 1
         \<and> progress (animate path s) = real (currentIndex s + 1) / real (length path) * 100
         \<and> robotPosition (animate path s) =
             Some \<lparr> px = px (path ! currentIndex s), py = py (path ! currentIndex s),
                    heading = atan2 (py (path ! (currentIndex s + 1)) - py (path ! currentIndex s))
                                    (px (path ! (currentIndex s + 1)) - px (path ! currentIndex s)) \<rparr>"
  using assms by (simp add: animate_def Let_def updateRobotPosition_def)

definition path4 :: "point list" where
  "path4 = [\<lparr>px = 0, py = 0\<rparr>, \<lparr>px = 100, py = 0\<rparr>, \<lparr>px = 100, py = 40\<rparr>,
            \<lparr>px = 0, py = 40\<rparr>]"

definition sim_paused_at_2 :: controls where
  "sim_paused_at_2 =
     initControls\<lparr>plannedPath := path4, isRunning := True, isPaused := True,
                  currentIndex := 2, progress := 50\<rparr>"

text \<open>
  What holds of pause, resume and stop: \<open>pause\<close> leaves index and progress as they
  are, and resuming a playback paused at index k performs exactly the advance step that
  the running playback would have performed at index k (the robot is shown at waypoint k
  and the index becomes k + 1); \<open>stop\<close> always puts index and progress at 0.
\<close>

lemma pause_resume_stop_cursor:
  "currentIndex (pause s) = currentIndex s \<and> progress (pause s) = progress s
   \<and> (isRunning s \<and> \<not> isPaused s \<and> plannedPath s \<noteq> [] \<longrightarrow>
        resume (pause s) = animate (plannedPath s) s)
   \<and> (isRunning s \<and> \<not> isPaused s \<and> currentIndex s + 1 < length (plannedPath s) \<longrightarrow>
        currentIndex (resume (pause s)) = currentIndex s + 1
        \<and> px (the (robotPosition (resume (pause s)))) = px (plannedPath s ! currentIndex s)
        \<and> py (the (robotPosition (resume (pause s)))) = py (plannedPath s ! currentIndex s))
   \<and> currentIndex (stop s) = 0 \<and> progress (stop s) = 0"
proof -
  have a: "currentIndex (pause s) = currentIndex s \<and> progress (pause s) = progress s"
    by (simp add: pause_def)
  have b: "isRunning s \<and> \<not> isPaused s \<and> plannedPath s \<noteq> [] \<longrightarrow>
           resume (pause s) = animate (plannedPath s) s"
    using resume_after_pause by blast
  have c: "isRunning s \<and> \<not> isPaused s \<and> currentIndex s + 1 < length (plannedPath s) \<longrightarrow>
        currentIndex (resume (pause s)) = currentIndex s + 1
        \<and> px (the (robotPosition (resume (pause s)))) = px (plannedPath s ! currentIndex s)
        \<and> py (the (robotPosition (resume (pause s)))) = py (plannedPath s ! currentIndex s)"
  proof (intro impI)
    assume h: "isRunning s \<and> \<not> isPaused s \<and> currentIndex s + 1 < length (plannedPath s)"
    then have ne: "plannedPath s \<noteq> []" by auto
    from h ne have "resume (pause s) = animate (plannedPath s) s"
      using resume_after_pause by blast
    with h animate_advances [of s "plannedPath s"] show
      "currentIndex (resume (pause s)) = currentIndex s + 1
        \<and> px (the (robotPosition (resume (pause s)))) = px (plannedPath s ! currentIndex s)
        \<and> py (the (robotPosition (resume (pause s)))) = py (plannedPath s ! currentIndex s)"
      by simp
  qed
  have d: "currentIndex (stop s) = 0 \<and> progress (stop s) = 0"
    by (simp add: stop_def)
  from a b c d show ?thesis by blast
qed

text \<open>
  C1. Pausing at index k and resuming continues from index k with the progress kept,
  \<open>stop\<close> resets index and progress, and \<open>run\<close> resets them only when starting
  fresh, not when resuming from pause. The code departs from the last part. In the state
  that is running and paused at index 2 of a four-point path, the space key calls
  \<open>run\<close>, and \<open>run\<close> writes index 0 and progress 0 before it starts the simulation:
  the robot is shown at waypoint 0 again and the index is 1 after the first advance,
  where \<open>resume\<close> from the same state advances to index 3.
\<close>

theorem run_resets_paused_cursor:
  "isRunning sim_paused_at_2 \<and> isPaused sim_paused_at_2 \<and> currentIndex sim_paused_at_2 = 2
   \<and> handleSpace sim_paused_at_2 = run sim_paused_at_2
   \<and> currentIndex (run sim_paused_at_2) = 1
   \<and> robotPosition (run sim_paused_at_2) = Some \<lparr>px = 0, py = 0, heading = 0\<rparr>
   \<and> currentIndex (resume sim_paused_at_2) = 3"
proof -
  have "isRunning sim_paused_at_2 \<and> isPaused sim_paused_at_2"
    by (simp add: sim_paused_at_2_def)
  then have "handleSpace sim_paused_at_2 = run sim_paused_at_2"
    by (simp add: handleSpace_def)
  then show ?thesis
    by (simp add: run_def resume_def sim_paused_at_2_def initControls_def path4_def
          startSimulation_def animate_def Let_def updateRobotPosition_def atan2_def)
qed

section \<open>Playback: running and paused flags\<close>

datatype playback_op = Run | Pause | Resume | Stop | Tick

fun apply_op :: "playback_op \<Rightarrow> controls \<Rightarrow> controls" where
  "apply_op Run s = run s"
| "apply_op Pause s = pause s"
| "apply_op Resume s = resume s"
| "apply_op Stop s = stop s"
| "apply_op Tick s = tick (plannedPath s) s"

fun exec_ops :: "playback_op list \<Rightarrow> controls \<Rightarrow> controls" where
  "exec_ops [] s = s"
| "exec_ops (op # ops) s = exec_ops ops (apply_op op s)"

text \<open>
  The pause button is disabled and the space key does not call \<open>pause\<close> unless the
  simulation is running: \<open>pause_gated\<close> says that a sequence of operations issues
  \<open>Pause\<close> only in such states.
\<close>

fun pause_gated :: "playback_op list \<Rightarrow> controls \<Rightarrow> bool" where
  "pause_gated [] s = True"
| "pause_gated (op # ops) s =
     ((op = Pause \<longrightarrow> isRunning s) \<and> pause_gated ops (apply_op op s))"

definition sim_inv :: "controls \<Rightarrow> bool" where
  "sim_inv s = (\<not> isRunning s \<longrightarrow> \<not> isPaused s)"

lemma sim_inv_stop: "sim_inv (stop s)"
  by (simp add: sim_inv_def stop_def)

lemma sim_inv_animate: "sim_inv s \<Longrightarrow> sim_inv (animate path s)"
  by (simp add: sim_inv_def animate_def stop_def Let_def updateRobotPosition_def)

lemma sim_inv_startSimulation:
  assumes "sim_inv s"
  shows "sim_inv (startSimulation s)"
proof -
  from assms have "sim_inv (s\<lparr>currentIndex := 0, progress := 0\<rparr>)"
    by (simp add: sim_inv_def)
  with assms show ?thesis
    by (simp add: startSimulation_def Let_def sim_inv_animate)
qed

lemma sim_inv_apply_op:
  assumes "sim_inv s" and "op = Pause \<longrightarrow> isRunning s"
  shows "sim_inv (apply_op op s)"
proof (cases op)
  case Run
  have "sim_inv (s\<lparr>isRunning := True, isPaused := False, currentIndex := 0, progress := 0\<rparr>)"
    by (simp add: sim_inv_def)
  then show ?thesis using Run assms(1) by (simp add: run_def sim_inv_startSimulation)
next
  case Pause
  then show ?thesis using assms by (simp add: pause_def sim_inv_def)
next
  case Resume
  have "sim_inv s \<Longrightarrow> sim_inv (s\<lparr>isPaused := False\<rparr>)" by (simp add: sim_inv_def)
  then show ?thesis using Resume assms(1) by (simp add: resume_def sim_inv_startSimulation)
next
  case Stop
  then show ?thesis by (simp add: sim_inv_stop)
next
  case Tick
  have "sim_inv s \<Longrightarrow> sim_inv (s\<lparr>timers := timers s - 1\<rparr>)" by (simp add: sim_inv_def)
  then show ?thesis using Tick assms(1) by (simp add: tick_def sim_inv_animate)
qed

lemma sim_inv_exec_ops:
  "sim_inv s \<Longrightarrow> pause_gated ops s \<Longrightarrow> sim_inv (exec_ops ops s)"
proof (induction ops arbitrary: s)
  case Nil
  then show ?case by simp
next
  case (Cons op ops)
  from Cons.prems have "sim_inv (apply_op op s)"
    by (simp add: sim_inv_apply_op)
  with Cons show ?case by simp
qed

text \<open>
  C7 (as amended). Along every sequence of run, pause, resume, stop and timer ticks in
  which pause is issued only while the simulation is running (what the disabled pause
  button and the space key enforce), \<open>running = false\<close> implies \<open>paused = false\<close>.
  \<open>pause\<close> itself has no guard: it always sets the paused flag, it is idempotent, and it
  leaves the state unchanged exactly when the state is already paused.
\<close>

theorem gated_playback_invariant:
  assumes "sim_inv s" and "pause_gated ops s"
  shows "sim_inv (exec_ops ops s) \<and> isPaused (pause s) \<and> pause (pause s) = pause s
         \<and> (pause s = s) = isPaused s"
proof -
  have "(pause s = s) = isPaused s"
    by (cases s) (auto simp: pause_def)
  then show ?thesis
    using assms sim_inv_exec_ops by (simp add: pause_def)
qed

theorem gated_playback_invariant_witness:
  "sim_inv (initControls\<lparr>plannedPath := path4\<rparr>)
   \<and> pause_gated [Run, Pause, Tick, Resume, Tick, Tick, Tick, Stop] (initControls\<lparr>plannedPath := path4\<rparr>)
   \<and> sim_inv (exec_ops [Run, Pause, Tick, Resume, Tick, Tick, Tick, Stop]
                (initControls\<lparr>plannedPath := path4\<rparr>))"
proof -
  have a: "sim_inv (initControls\<lparr>plannedPath := path4\<rparr>)"
    by (simp add: sim_inv_def initControls_def)
  have b: "pause_gated [Run, Pause, Tick, Resume, Tick, Tick, Tick, Stop]
             (initControls\<lparr>plannedPath := path4\<rparr>)"
    by (simp add: run_def pause_def resume_def stop_def tick_def startSimulation_def
          animate_def Let_def updateRobotPosition_def initControls_def path4_def)
  from gated_playback_invariant [OF a b] a b show ?thesis by blast
qed

text \<open>
  The claim as stated fails: \<open>pause\<close> on the initial state, which is not running, sets
  the paused flag.
\<close>

theorem pause_while_idle_sets_paused:
  "\<not> isRunning initControls \<and> \<not> isRunning (pause initControls) \<and> isPaused (pause initControls)
   \<and> pause initControls \<noteq> initControls \<and> \<not> sim_inv (pause initControls)"
proof -
  have "isPaused (pause initControls) \<noteq> isPaused initControls"
    by (simp add: pause_def initControls_def)
  then have "pause initControls \<noteq> initControls" by metis
  then show ?thesis by (simp add: pause_def initControls_def sim_inv_def)
qed

section \<open>View transform\<close>

text \<open>
  \<open>handleWheel\<close>: \<open>mouseX\<close>, \<open>mouseY\<close> are the canvas coordinates of the pointer and
  \<open>deltaY\<close> is the wheel delta of the event.
\<close>

definition handleWheel :: "real \<Rightarrow> real \<Rightarrow> real \<Rightarrow> 'a canvas_scheme \<Rightarrow> 'a canvas_scheme" where
  "handleWheel mouseX mouseY deltaY s =
     (let zoomFactor = (if deltaY > 0 then 9 / 10 else 11 / 10);
          newScale = max minScale (min maxScale (scale s * zoomFactor))
      in if newScale \<noteq> scale s
         then (let worldX = (mouseX - panX s) / scale s;
                   worldY = (mouseY - panY s) / scale s;
                   s1 = s\<lparr>scale := newScale\<rparr>;
                   s2 = s1\<lparr>panX := mouseX - worldX * scale s1\<rparr>
               in s2\<lparr>panY := mouseY - worldY * scale s2\<rparr>)
         else s)"

text \<open>\<open>zoomIn\<close> and \<open>zoomOut\<close> zoom about the centre of the canvas element, whose width
  and height are inputs of the model.\<close>

definition zoomIn :: "real \<Rightarrow> real \<Rightarrow> 'a canvas_scheme \<Rightarrow> 'a canvas_scheme" where
  "zoomIn width height s =
     (let centerX = width / 2;
          centerY = height / 2;
          worldX = (centerX - panX s) / scale s;
          worldY = (centerY - panY s) / scale s;
          s1 = s\<lparr>scale := min maxScale (scale s * (12 / 10))\<rparr>;
          s2 = s1\<lparr>panX := centerX - worldX * scale s1\<rparr>
      in s2\<lparr>panY := centerY - worldY * scale s2\<rparr>)"

definition zoomOut :: "real \<Rightarrow> real \<Rightarrow> 'a canvas_scheme \<Rightarrow> 'a canvas_scheme" where
  "zoomOut width height s =
     (let centerX = width / 2;
          centerY = height / 2;
          worldX = (centerX - panX s) / scale s;
          worldY = (centerY - panY s) / scale s;
          s1 = s\<lparr>scale := max minScale (scale s / (12 / 10))\<rparr>;
          s2 = s1\<lparr>panX := centerX - worldX * scale s1\<rparr>
      in s2\<lparr>panY := centerY - worldY * scale s2\<rparr>)"

definition resetZoom :: "'a canvas_scheme \<Rightarrow> 'a canvas_scheme" where
  "resetZoom s = s\<lparr>scale := 1, panX := 0, panY := 0\<rparr>"

text \<open>Panning: middle button or Ctrl + left button starts it, the move handler adds the
  raw canvas-space delta to the pan offset.\<close>

definition handleMouseDown :: "nat \<Rightarrow> bool \<Rightarrow> real \<Rightarrow> real \<Rightarrow> 'a canvas_scheme \<Rightarrow> 'a canvas_scheme" where
  "handleMouseDown button ctrlKey canvasX canvasY s =
     (if button = 1 \<or> (button = 0 \<and> ctrlKey)
      then s\<lparr>isPanning := True, lastPanPoint := \<lparr> px = canvasX, py = canvasY \<rparr>\<rparr>
      else s)"

definition handleMouseMove :: "real \<Rightarrow> real \<Rightarrow> 'a canvas_scheme \<Rightarrow> 'a canvas_scheme" where
  "handleMouseMove canvasX canvasY s =
     (let currentMousePos = getMousePosition canvasX canvasY s
      in if isPanning s
         then s\<lparr>panX := panX s + (canvasX - px (lastPanPoint s)),
                panY := panY s + (canvasY - py (lastPanPoint s)),
                lastPanPoint := \<lparr> px = canvasX, py = canvasY \<rparr>\<rparr>
         else if (mode s = Boundary \<and> length (boundary s) > 0)
                 \<or> ((mode s = Obstacle \<or> mode s = ObstacleDynamic)
                     \<and> length (currentObstacle s) > 0)
         then s\<lparr>mousePosition := Some currentMousePos\<rparr>
         else s)"

definition handleMouseUp :: "'a canvas_scheme \<Rightarrow> 'a canvas_scheme" where
  "handleMouseUp s = (if isPanning s then s\<lparr>isPanning := False\<rparr> else s)"

definition handleMouseLeave :: "'a canvas_scheme \<Rightarrow> 'a canvas_scheme" where
  "handleMouseLeave s = (if isPanning s then s\<lparr>isPanning := False\<rparr> else s)"

lemma minScale_pos: "0 < minScale"
  by (simp add: minScale_def)

lemma minScale_le_maxScale: "minScale \<le> maxScale"
  by (simp add: minScale_def maxScale_def)

lemma refocus:
  fixes m p k n :: real
  assumes "n \<noteq> 0"
  shows "(m - (m - (m - p) / k * n)) / n = (m - p) / k"
  using assms by simp

lemma handleWheel_focal:
  assumes "minScale \<le> scale s"
  shows "getMousePosition mx my (handleWheel mx my dy s) = getMousePosition mx my s"
proof -
  let ?n = "max minScale (min maxScale (scale s * (if dy > 0 then 9 / 10 else 11 / 10)))"
  have "0 < ?n" using minScale_pos by (simp add: less_max_iff_disj)
  then have n: "?n \<noteq> 0" by (metis less_irrefl)
  show ?thesis
    unfolding handleWheel_def getMousePosition_def Let_def
    using n refocus [OF n] by simp
qed

lemma zoomIn_focal:
  assumes "minScale \<le> scale s"
  shows "getMousePosition (w / 2) (h / 2) (zoomIn w h s) = getMousePosition (w / 2) (h / 2) s"
proof -
  let ?n = "min maxScale (scale s * (12 / 10))"
  have "0 < scale s" using assms minScale_pos by linarith
  moreover have "0 < maxScale" by (simp add: maxScale_def)
  ultimately have "0 < ?n" by simp
  then have n: "?n \<noteq> 0" by (metis less_irrefl)
  show ?thesis
    unfolding zoomIn_def getMousePosition_def Let_def
    using refocus [OF n] by simp
qed

lemma zoomOut_focal:
  "getMousePosition (w / 2) (h / 2) (zoomOut w h s) = getMousePosition (w / 2) (h / 2) s"
proof -
  let ?n = "max minScale (scale s / (12 / 10))"
  have "0 < ?n" using minScale_pos by (simp add: less_max_iff_disj)
  then have n: "?n \<noteq> 0" by (metis less_irrefl)
  show ?thesis
    unfolding zoomOut_def getMousePosition_def Let_def
    using refocus [OF n] by simp
qed

lemma handleWheel_scale:
  "scale (handleWheel mx my dy s)
     = max minScale (min maxScale (scale s * (if dy > 0 then 9 / 10 else 11 / 10)))"
  by (simp add: handleWheel_def Let_def)

lemma zoomIn_scale:
  assumes "minScale \<le> scale s"
  shows "scale (zoomIn w h s) = max minScale (min maxScale (scale s * (12 / 10)))"
proof -
  have "0 < scale s" using assms minScale_pos by linarith
  then have "minScale \<le> scale s * (12 / 10)" using assms by simp
  then have "minScale \<le> min maxScale (scale s * (12 / 10))"
    using minScale_le_maxScale by simp
  then show ?thesis by (simp add: zoomIn_def Let_def max_def)
qed

lemma zoomOut_scale:
  assumes "minScale \<le> scale s" and "scale s \<le> maxScale"
  shows "scale (zoomOut w h s) = max minScale (min maxScale (scale s * (10 / 12)))"
proof -
  have "0 < scale s" using assms minScale_pos by linarith
  then have "scale s * (10 / 12) \<le> maxScale" using assms by simp
  then have e: "min maxScale (scale s * (10 / 12)) = scale s * (10 / 12)"
    by (rule min_absorb2)
  show ?thesis unfolding e by (simp add: zoomOut_def Let_def)
qed

text \<open>
  C2. In exact real arithmetic (the model of the floating-point numbers), for a view
  whose scale lies in [minScale, maxScale]: a wheel zoom at the pointer, and a keyboard
  zoom in or out at the centre of the canvas, leave the world point under the focal point
  exactly where it was, and the new scale is the old scale times the zoom factor
  (0.9 or 1.1 for the wheel, 1.2 or 1/1.2 for the keys) clamped to [minScale, maxScale].
\<close>

theorem zoom_keeps_focal_point:
  assumes "minScale \<le> scale s" and "scale s \<le> maxScale"
  shows "getMousePosition mx my (handleWheel mx my dy s) = getMousePosition mx my s
       \<and> scale (handleWheel mx my dy s)
           = max minScale (min maxScale (scale s * (if dy > 0 then 9 / 10 else 11 / 10)))
       \<and> getMousePosition (w / 2) (h / 2) (zoomIn w h s) = getMousePosition (w / 2) (h / 2) s
       \<and> scale (zoomIn w h s) = max minScale (min maxScale (scale s * (12 / 10)))
       \<and> getMousePosition (w / 2) (h / 2) (zoomOut w h s) = getMousePosition (w / 2) (h / 2) s
       \<and> scale (zoomOut w h s) = max minScale (min maxScale (scale s * (10 / 12)))"
  using assms handleWheel_focal [of s mx my dy] handleWheel_scale [of mx my dy s]
    zoomIn_focal [of s w h] zoomIn_scale [of s w h] zoomOut_focal [of w h s]
    zoomOut_scale [of s w h]
  by blast

theorem zoom_keeps_focal_point_witness:
  "minScale \<le> scale (initCanvas\<lparr>panX := 30, panY := 10\<rparr>)
   \<and> scale (initCanvas\<lparr>panX := 30, panY := 10\<rparr>) \<le> maxScale
   \<and> getMousePosition 400 300 (handleWheel 400 300 (-1) (initCanvas\<lparr>panX := 30, panY := 10\<rparr>))
       = \<lparr> px = 370, py = 290 \<rparr>
   \<and> scale (handleWheel 400 300 (-1) (initCanvas\<lparr>panX := 30, panY := 10\<rparr>)) = 11 / 10
   \<and> getMousePosition (800 / 2) (600 / 2) (zoomIn 800 600 (initCanvas\<lparr>panX := 30, panY := 10\<rparr>))
       = \<lparr> px = 370, py = 290 \<rparr>
   \<and> scale (zoomIn 800 600 (initCanvas\<lparr>panX := 30, panY := 10\<rparr>)) = 12 / 10"
proof -
  have h1: "minScale \<le> scale (initCanvas\<lparr>panX := 30, panY := 10\<rparr>)"
    by (simp add: initCanvas_def minScale_def)
  have h2: "scale (initCanvas\<lparr>panX := 30, panY := 10\<rparr>) \<le> maxScale"
    by (simp add: initCanvas_def maxScale_def)
  have g: "getMousePosition 400 300 (initCanvas\<lparr>panX := 30, panY := 10\<rparr>) = \<lparr> px = 370, py = 290 \<rparr>"
    by (simp add: getMousePosition_def initCanvas_def)
  have k: "scale (initCanvas\<lparr>panX := 30, panY := 10\<rparr>) = 1"
    by (simp add: initCanvas_def)
  from zoom_keeps_focal_point [OF h1 h2, of 400 300 "-1" 800 600] h1 h2 g k
  show ?thesis by (simp add: minScale_def maxScale_def)
qed

section \<open>JavaScript numbers in the geometry utilities\<close>

text \<open>
  The area and grid computations depend on the rounding of every operation, so they are
  modelled on IEEE 754 double precision: a finite double is the real number it denotes,
  and every arithmetic operation returns the exact result rounded to the nearest double,
  ties to the even significand. \<open>fl\<close> scales the magnitude into [2^52, 2^53), where the
  doubles are the integers, rounds there and scales back; scaling up stops after 1074
  doublings, which gives the subnormal numbers their fixed spacing 2^-1074. Results of
  magnitude 2^1024 or more (Infinity in JavaScript), NaN and the sign of zero are outside
  the model.
\<close>

definition rhe :: "real \<Rightarrow> int" where
  "rhe m =
     (let f = \<lfloor>m\<rfloor>; d = m - real_of_int f
      in if d < 1 / 2 then f else if d > 1 / 2 then f + 1 else if even f then f else f + 1)"

fun scale_down :: "nat \<Rightarrow> real \<Rightarrow> real \<Rightarrow> real \<times> real" where
  "scale_down k m q =
     (if k = 0 \<or> m < 2 ^ 53 then (m, q) else scale_down (k - 1) (m / 2) (q * 2))"

fun scale_up :: "nat \<Rightarrow> real \<Rightarrow> real \<Rightarrow> real \<times> real" where
  "scale_up k m q =
     (if k = 0 \<or> 2 ^ 52 \<le> m then (m, q) else scale_up (k - 1) (m * 2) (q / 2))"

declare scale_down.simps [simp del] scale_up.simps [simp del]

definition fl :: "real \<Rightarrow> real" where
  "fl x =
     (if x = 0 then 0
      else (let (m1, q1) = scale_down 971 \<bar>x\<bar> 1;
                (m2, q2) = scale_up 1074 m1 q1
            in sgn x * real_of_int (rhe m2) * q2))"

text \<open>The operators \<open>+\<close>, \<open>-\<close>, \<open>*\<close> and \<open>/\<close> on doubles.\<close>

definition fadd :: "real \<Rightarrow> real \<Rightarrow> real" where
  "fadd x y = fl (x + y)"

definition fsub :: "real \<Rightarrow> real \<Rightarrow> real" where
  "fsub x y = fl (x - y)"

definition fmul :: "real \<Rightarrow> real \<Rightarrow> real" where
  "fmul x y = fl (x * y)"

definition fdiv :: "real \<Rightarrow> real \<Rightarrow> real" where
  "fdiv x y = fl (x / y)"

lemma rhe_Ints:
  assumes "m \<in> \<int>"
  shows "real_of_int (rhe m) = m"
proof -
  from assms obtain k where "m = of_int k" by (auto elim: Ints_cases)
  then show ?thesis by (simp add: rhe_def)
qed

lemma scale_up_prod: "fst (scale_up k m q) * snd (scale_up k m q) = m * q"
proof (induction k m q rule: scale_up.induct)
  case (1 k m q)
  show ?case
  proof (cases "k = 0 \<or> 2 ^ 52 \<le> m")
    case True
    then show ?thesis by (subst (1 2) scale_up.simps) auto
  next
    case False
    with "1.IH" show ?thesis by (subst (1 2) scale_up.simps) simp
  qed
qed

lemma scale_up_Ints: "m \<in> \<int> \<Longrightarrow> fst (scale_up k m q) \<in> \<int>"
proof (induction k m q rule: scale_up.induct)
  case (1 k m q)
  show ?case
  proof (cases "k = 0 \<or> 2 ^ 52 \<le> m")
    case True
    with "1.prems" show ?thesis by (subst scale_up.simps) auto
  next
    case False
    from "1.prems" have "m * 2 \<in> \<int>" by simp
    with False "1.IH" show ?thesis by (subst scale_up.simps) simp
  qed
qed

text \<open>Rounding is exact when the scaled significand is an integer.\<close>

lemma fl_exact_up:
  assumes "x \<noteq> 0" and "\<bar>x\<bar> < 2 ^ 53" and "fst (scale_up 1074 \<bar>x\<bar> 1) \<in> \<int>"
  shows "fl x = x"
proof -
  have sd: "scale_down 971 \<bar>x\<bar> 1 = (\<bar>x\<bar>, 1)"
    using assms(2) by (subst scale_down.simps) simp
  obtain m2 q2 where su: "scale_up 1074 \<bar>x\<bar> 1 = (m2, q2)" by (cases "scale_up 1074 \<bar>x\<bar> 1")
  from su assms(3) have "m2 \<in> \<int>" by simp
  then have r: "real_of_int (rhe m2) = m2" by (rule rhe_Ints)
  from su scale_up_prod [of 1074 "\<bar>x\<bar>" 1] have p: "m2 * q2 = \<bar>x\<bar>" by simp
  have "fl x = sgn x * (m2 * q2)"
    using assms(1) by (simp add: fl_def sd su r)
  also have "\<dots> = x" by (simp add: p sgn_mult_abs)
  finally show ?thesis .
qed

lemma fl_int:
  assumes "x \<in> \<int>" and "\<bar>x\<bar> \<le> 2 ^ 53"
  shows "fl x = x"
proof (cases "x = 0")
  case True
  then show ?thesis by (simp add: fl_def)
next
  case False
  show ?thesis
  proof (cases "\<bar>x\<bar> < 2 ^ 53")
    case True
    from assms(1) have "\<bar>x\<bar> \<in> \<int>" by simp
    then have "fst (scale_up 1074 \<bar>x\<bar> 1) \<in> \<int>" by (rule scale_up_Ints)
    with False True show ?thesis by (rule fl_exact_up)
  next
    case False
    with assms(2) have a: "\<bar>x\<bar> = 2 ^ 53" by simp
    have sd: "scale_down 971 \<bar>x\<bar> 1 = (2 ^ 52, 2)"
      unfolding a by (simp add: scale_down.simps)
    have su: "scale_up 1074 (2 ^ 52) 2 = (2 ^ 52, 2)"
      by (simp add: scale_up.simps)
    have r: "real_of_int (rhe (2 ^ 52)) = 2 ^ 52"
      by (rule rhe_Ints) simp
    have "fl x = sgn x * (2 ^ 52 * 2)"
      using \<open>x \<noteq> 0\<close> by (simp only: fl_def sd su r Let_def prod.case if_False mult.assoc)
    also have "\<dots> = sgn x * \<bar>x\<bar>" by (simp add: a)
    also have "\<dots> = x" by (simp add: sgn_mult_abs)
    finally show ?thesis .
  qed
qed

lemma fl_half:
  assumes "x * 2 \<in> \<int>" and "\<bar>x * 2\<bar> \<le> 2 ^ 53"
  shows "fl x = x"
proof (cases "x = 0")
  case True
  then show ?thesis by (simp add: fl_def)
next
  case False
  from assms(2) have le: "\<bar>x\<bar> \<le> 2 ^ 52" by simp
  then have lt: "\<bar>x\<bar> < 2 ^ 53" by simp
  from assms(1) have i2: "\<bar>x\<bar> * 2 \<in> \<int>"
    by (metis Ints_abs abs_mult abs_numeral)
  have "fst (scale_up 1074 \<bar>x\<bar> 1) \<in> \<int>"
  proof (cases "\<bar>x\<bar> < 2 ^ 52")
    case True
    then have "scale_up 1074 \<bar>x\<bar> 1 = scale_up 1073 (\<bar>x\<bar> * 2) (1 / 2)"
      by (subst scale_up.simps) simp
    with scale_up_Ints [OF i2] show ?thesis by simp
  next
    case False
    with le have e: "\<bar>x\<bar> = 2 ^ 52" by simp
    show ?thesis unfolding e by (simp add: scale_up.simps)
  qed
  with \<open>x \<noteq> 0\<close> lt show ?thesis by (rule fl_exact_up)
qed

lemma fl_numeral [simp]: "numeral n \<le> (2::real) ^ 53 \<Longrightarrow> fl (numeral n) = numeral n"
  by (rule fl_int) simp_all

lemma fl_0 [simp]: "fl 0 = 0"
  by (simp add: fl_def)

lemma fl_1 [simp]: "fl 1 = 1"
  by (rule fl_int) simp_all

lemma fl_of_nat: "real n \<le> 2 ^ 53 \<Longrightarrow> fl (real n) = real n"
  by (rule fl_int) simp_all

text \<open>Rounding a value whose binary exponent is known: \<open>k\<close> doublings bring it into
  [2^52, 2^53).\<close>

lemma scale_up_steps:
  assumes "0 < x" and "2 ^ 52 \<le> x * 2 ^ k" and "x * 2 ^ k < 2 ^ 53" and "k \<le> n"
  shows "scale_up n x q = (x * 2 ^ k, q / 2 ^ k)"
  using assms
proof (induction k arbitrary: x q n)
  case 0
  then show ?case by (subst scale_up.simps) simp
next
  case (Suc k)
  have "x * 2 \<le> x * 2 ^ Suc k"
    using Suc.prems(1) by (simp add: self_le_power)
  with Suc.prems(3) have lt: "x < 2 ^ 52" by simp
  from Suc.prems(4) have n: "n \<noteq> 0" "k \<le> n - 1" by simp_all
  have "scale_up n x q = scale_up (n - 1) (x * 2) (q / 2)"
    using lt n by (subst scale_up.simps) simp
  also have "\<dots> = (x * 2 * 2 ^ k, q / 2 / 2 ^ k)"
    using Suc.prems n by (intro Suc.IH) (simp_all add: mult.assoc)
  finally show ?case by (simp add: mult.assoc)
qed

lemma fl_eval_up:
  assumes "0 < x" and "2 ^ 52 \<le> x * 2 ^ k" and "x * 2 ^ k < 2 ^ 53" and "k \<le> 1074"
  shows "fl x = real_of_int (rhe (x * 2 ^ k)) / 2 ^ k"
proof -
  have "x * 1 \<le> x * 2 ^ k"
    using assms(1) by (intro mult_left_mono) simp_all
  then have "x \<le> x * 2 ^ k" by simp
  with assms(3) have "x < 2 ^ 53" by linarith
  then have sd: "scale_down 971 x 1 = (x, 1)"
    by (subst scale_down.simps) simp
  have su: "scale_up 1074 x 1 = (x * 2 ^ k, 1 / 2 ^ k)"
    by (rule scale_up_steps [OF assms])
  show ?thesis
    using assms(1) by (simp add: fl_def sd su)
qed

lemma fl_neg: "x < 0 \<Longrightarrow> fl x = - fl (- x)"
  by (simp add: fl_def split: prod.splits)

text \<open>Rounding keeps a value of [0, 2^53) in [0, 2^53].\<close>

lemma scale_up_inv:
  assumes "0 < m" and "m < 2 ^ 53" and "0 < q" and "q \<le> 1"
  shows "0 < fst (scale_up n m q) \<and> fst (scale_up n m q) < 2 ^ 53
       \<and> 0 < snd (scale_up n m q) \<and> snd (scale_up n m q) \<le> 1"
  using assms
proof (induction n arbitrary: m q)
  case 0
  then show ?case by (subst (1 2 3 4) scale_up.simps) simp
next
  case (Suc n)
  show ?case
  proof (cases "2 ^ 52 \<le> m")
    case True
    with Suc.prems show ?thesis by (subst (1 2 3 4) scale_up.simps) simp
  next
    case False
    have "0 < m * 2" using Suc.prems(1) by simp
    moreover from False have "m * 2 < 2 ^ 53" by simp
    moreover have "0 < q / 2" "q / 2 \<le> 1" using Suc.prems(3,4) by simp_all
    ultimately have "0 < fst (scale_up n (m * 2) (q / 2)) \<and> fst (scale_up n (m * 2) (q / 2)) < 2 ^ 53
       \<and> 0 < snd (scale_up n (m * 2) (q / 2)) \<and> snd (scale_up n (m * 2) (q / 2)) \<le> 1"
      by (rule Suc.IH)
    with False show ?thesis by (subst (1 2 3 4) scale_up.simps) simp
  qed
qed

lemma rhe_range:
  assumes "0 < m" and "m < 2 ^ 53"
  shows "0 \<le> rhe m \<and> real_of_int (rhe m) \<le> 2 ^ 53"
proof -
  have f0: "0 \<le> \<lfloor>m\<rfloor>" using assms(1) by simp
  have "\<lfloor>m\<rfloor> < 2 ^ 53" using assms(2) by (simp add: floor_less_iff)
  then have f1: "\<lfloor>m\<rfloor> + 1 \<le> 2 ^ 53" by simp
  have "rhe m = \<lfloor>m\<rfloor> \<or> rhe m = \<lfloor>m\<rfloor> + 1" by (simp add: rhe_def Let_def)
  with f0 f1 have "0 \<le> rhe m \<and> rhe m \<le> 2 ^ 53" by auto
  then show ?thesis by (metis of_int_le_iff of_int_numeral of_int_power)
qed

lemma fl_range:
  assumes "0 \<le> x" and "x < 2 ^ 53"
  shows "0 \<le> fl x \<and> fl x \<le> 2 ^ 53"
proof (cases "x = 0")
  case True
  then show ?thesis by simp
next
  case False
  with assms(1) have pos: "0 < x" by simp
  have sd: "scale_down 971 x 1 = (x, 1)"
    using pos assms(2) by (subst scale_down.simps) simp
  obtain m2 q2 where su: "scale_up 1074 x 1 = (m2, q2)" by (cases "scale_up 1074 x 1")
  from scale_up_inv [OF pos assms(2), of 1 1074] su
  have inv: "0 < m2" "m2 < 2 ^ 53" "0 < q2" "q2 \<le> 1" by simp_all
  note r = rhe_range [OF inv(1,2)]
  have e: "fl x = real_of_int (rhe m2) * q2"
    using pos by (simp add: fl_def sd su)
  have "0 \<le> real_of_int (rhe m2) * q2" using r inv(3) by simp
  moreover have "real_of_int (rhe m2) * q2 \<le> 2 ^ 53 * 1"
    using r inv(3,4) by (intro mult_mono) simp_all
  ultimately show ?thesis unfolding e by simp
qed

section \<open>Geometry utilities\<close>

subsection \<open>JavaScript values and number formatting\<close>

text \<open>
  \<open>calculatePolygonArea\<close> returns the number 0 or a string made by \<open>toFixed(1)\<close>, so
  its result type is a sum of the two.
\<close>

datatype jsval = Num real | Str string

text \<open>
  \<open>x.toFixed(1)\<close> for a double x of magnitude below 1e21: the integer n with n / 10
  closest to the exact value of x, the larger one on a tie, written with one decimal; a
  negative x is formatted as \<open>-\<close> followed by the formatting of -x. From 1e21 on
  JavaScript switches to the exponent form, which is outside the model.
\<close>

definition toFixed1 :: "real \<Rightarrow> string" where
  "toFixed1 x =
     (let a = (if x < 0 then - x else x);
          n = nat \<lfloor>a * 10 + 1 / 2\<rfloor>;
          m = show_nat (n div 10) @ ''.'' @ [digit_char (n mod 10)]
      in if x < 0 then ''-'' @ m else m)"

text \<open>
  \<open>parseFloat\<close> on the strings that occur here: an optional minus sign, decimal digits,
  and an optional fraction; the result is the double nearest to the decimal value, and
  \<open>None\<close> is NaN. Characters after the number are ignored, as in JavaScript. (Leading
  white space, exponents and \<open>Infinity\<close> are outside the model.)
\<close>

definition is_digit :: "char \<Rightarrow> bool" where
  "is_digit c = (c \<in> set ''0123456789'')"

definition digit_val :: "char \<Rightarrow> nat" where
  "digit_val c = of_char c - 48"

fun digits_val :: "nat \<Rightarrow> string \<Rightarrow> nat" where
  "digits_val acc [] = acc"
| "digits_val acc (c # cs) = digits_val (acc * 10 + digit_val c) cs"

definition parseFloat_str :: "string \<Rightarrow> real option" where
  "parseFloat_str str =
     (let neg = (str \<noteq> [] \<and> hd str = CHR ''-'');
          body = (if neg then tl str else str);
          ip = takeWhile is_digit body;
          rest = dropWhile is_digit body;
          fp = (if rest \<noteq> [] \<and> hd rest = CHR ''.'' then takeWhile is_digit (tl rest) else [])
      in if ip = [] \<and> fp = [] then None
         else (let v = real (digits_val 0 ip) + real (digits_val 0 fp) / 10 ^ length fp
               in Some (fl (if neg then - v else v))))"

text \<open>\<open>parseFloat\<close> applied to a value: a number is first converted to a string, which
  gives the number back.\<close>

fun parseFloat :: "jsval \<Rightarrow> real option" where
  "parseFloat (Num r) = Some r"
| "parseFloat (Str str) = parseFloat_str str"

subsection \<open>Polygon area\<close>

text \<open>The \<open>for\<close> loop of \<open>calculatePolygonArea\<close>, from index \<open>i\<close> with accumulator
  \<open>area\<close>; \<open>+=\<close> and \<open>-=\<close> round after each product and each sum.\<close>

function area_loop :: "point list \<Rightarrow> nat \<Rightarrow> real \<Rightarrow> real" where
  "area_loop pts i area =
     (if i < length pts
      then (let j = (i + 1) mod length pts;
                area1 = fadd area (fmul (px (pts ! i)) (py (pts ! j)));
                area2 = fsub area1 (fmul (px (pts ! j)) (py (pts ! i)))
            in area_loop pts (i + 1) area2)
      else area)"
  by pat_completeness auto
termination
  by (relation "measure (\<lambda>(pts, i, area). length pts - i)") auto

declare area_loop.simps [simp del]

lemma area_loop_step:
  "i < length pts \<Longrightarrow>
     area_loop pts i area =
       area_loop pts (i + 1)
         (fsub (fadd area (fmul (px (pts ! i)) (py (pts ! ((i + 1) mod length pts)))))
               (fmul (px (pts ! ((i + 1) mod length pts))) (py (pts ! i))))"
  by (subst area_loop.simps) (simp add: Let_def)

lemma area_loop_done: "\<not> i < length pts \<Longrightarrow> area_loop pts i area = area"
  by (subst area_loop.simps) simp

definition calculatePolygonArea :: "point list \<Rightarrow> jsval" where
  "calculatePolygonArea pts =
     (if length pts < 3 then Num 0
      else (let area = area_loop pts 0 0;
                area' = fdiv \<bar>area\<bar> 2
            in Str (toFixed1 (fdiv area' (fmul 50 50)))))"

lemma calculatePolygonArea_eval:
  "3 \<le> length pts \<Longrightarrow>
     calculatePolygonArea pts
       = Str (toFixed1 (fdiv (fdiv \<bar>area_loop pts 0 0\<bar> 2) (fmul 50 50)))"
  by (simp add: calculatePolygonArea_def Let_def)

text \<open>The shoelace value in the words of the specification, in exact arithmetic.\<close>

definition shoelace :: "point list \<Rightarrow> real" where
  "shoelace ps =
     \<bar>\<Sum>i<length ps. px (ps ! i) * py (ps ! ((i + 1) mod length ps))
                       - px (ps ! ((i + 1) mod length ps)) * py (ps ! i)\<bar> / 2"

text \<open>
  Coordinates that are integers of magnitude at most \<open>B\<close>. When 2 n B B does not
  exceed 2^53 for a polygon of n such points, every product and every partial sum of the
  loop is an integer that a double holds exactly.
\<close>

definition int_coords :: "nat \<Rightarrow> point list \<Rightarrow> bool" where
  "int_coords B ps =
     (\<forall>p \<in> set ps. px p \<in> \<int> \<and> py p \<in> \<int> \<and> \<bar>px p\<bar> \<le> real B \<and> \<bar>py p\<bar> \<le> real B)"

definition square100 :: "point list" where
  "square100 = [\<lparr>px = 0, py = 0\<rparr>, \<lparr>px = 100, py = 0\<rparr>, \<lparr>px = 100, py = 100\<rparr>,
                \<lparr>px = 0, py = 100\<rparr>]"

definition triangle_30_25 :: "point list" where
  "triangle_30_25 = [\<lparr>px = 0, py = 0\<rparr>, \<lparr>px = 30, py = 0\<rparr>, \<lparr>px = 0, py = 25\<rparr>]"

lemma prod_bound:
  fixes a b :: real
  assumes "\<bar>a\<bar> \<le> c" and "\<bar>b\<bar> \<le> c"
  shows "\<bar>a * b\<bar> \<le> c * c"
proof -
  have "\<bar>a * b\<bar> = \<bar>a\<bar> * \<bar>b\<bar>" by (rule abs_mult)
  also have "\<dots> \<le> c * c"
    using assms by (intro mult_mono) auto
  finally show ?thesis .
qed

lemma area_loop_exact:
  assumes "int_coords B pts"
    and "2 * real (length pts) * (real B * real B) \<le> 2 ^ 53"
    and "area \<in> \<int>"
    and "\<bar>area\<bar> \<le> 2 * real i * (real B * real B)"
    and "i \<le> length pts"
  shows "area_loop pts i area =
           area + (\<Sum>k = i..<length pts. px (pts ! k) * py (pts ! ((k + 1) mod length pts))
                                           - px (pts ! ((k + 1) mod length pts)) * py (pts ! k))
         \<and> area_loop pts i area \<in> \<int>
         \<and> \<bar>area_loop pts i area\<bar> \<le> 2 * real (length pts) * (real B * real B)"
  using assms
proof (induction pts i area rule: area_loop.induct)
  case (1 pts i area)
  let ?n = "length pts"
  let ?Q = "real B * real B"
  show ?case
  proof (cases "i < ?n")
    case False
    with "1.prems"(5) have "i = ?n" by simp
    with "1.prems"(3,4) show ?thesis
      by (subst (1 2 3) area_loop.simps) simp
  next
    case True
    let ?j = "(i + 1) mod ?n"
    from True have "0 < ?n" by linarith
    then have j: "?j < ?n" by (rule mod_less_divisor)
    from True have pi: "pts ! i \<in> set pts" by simp
    from j have pj: "pts ! ?j \<in> set pts" by simp
    from "1.prems"(1) pi pj
    have ci: "px (pts ! i) \<in> \<int>" "py (pts ! i) \<in> \<int>"
             "\<bar>px (pts ! i)\<bar> \<le> real B" "\<bar>py (pts ! i)\<bar> \<le> real B"
      and cj: "px (pts ! ?j) \<in> \<int>" "py (pts ! ?j) \<in> \<int>"
              "\<bar>px (pts ! ?j)\<bar> \<le> real B" "\<bar>py (pts ! ?j)\<bar> \<le> real B"
      unfolding int_coords_def by blast+
    let ?p1 = "px (pts ! i) * py (pts ! ?j)"
    let ?p2 = "px (pts ! ?j) * py (pts ! i)"
    define Q where "Q = real B * real B"
    define t where "t = real i * Q"
    have Q0: "0 \<le> Q" by (simp add: Q_def)
    have p1: "?p1 \<in> \<int>" "\<bar>?p1\<bar> \<le> Q"
      unfolding Q_def using ci cj by (auto intro: prod_bound)
    have p2: "?p2 \<in> \<int>" "\<bar>?p2\<bar> \<le> Q"
      unfolding Q_def using ci cj by (auto intro: prod_bound)
    have ar: "\<bar>area\<bar> \<le> 2 * t"
      using "1.prems"(4) by (simp add: t_def Q_def)
    from True have "real i + 1 \<le> real ?n" by simp
    then have "(real i + 1) * Q \<le> real ?n * Q"
      using Q0 by (rule mult_right_mono)
    moreover have "2 * (real ?n * Q) \<le> 2 ^ 53"
      using "1.prems"(2) by (simp add: Q_def)
    ultimately have top: "2 * t + 2 * Q \<le> 2 ^ 53"
      by (simp add: t_def algebra_simps)
    have t0: "0 \<le> t" using Q0 by (simp add: t_def)
    have Qle: "Q \<le> 2 ^ 53" using top Q0 t0 by linarith
    have f1: "fmul (px (pts ! i)) (py (pts ! ?j)) = ?p1"
      unfolding fmul_def using p1 Qle by (intro fl_int) auto
    have f2: "fmul (px (pts ! ?j)) (py (pts ! i)) = ?p2"
      unfolding fmul_def using p2 Qle by (intro fl_int) auto
    have a1: "area + ?p1 \<in> \<int>" using "1.prems"(3) p1 by simp
    have b1: "\<bar>area + ?p1\<bar> \<le> 2 * t + Q"
      using ar p1(2) by linarith
    with top Q0 have "\<bar>area + ?p1\<bar> \<le> 2 ^ 53" by linarith
    with a1 have f3: "fadd area ?p1 = area + ?p1"
      unfolding fadd_def by (intro fl_int)
    have a2: "area + ?p1 - ?p2 \<in> \<int>" using a1 p2 by simp
    have b2': "\<bar>area + ?p1 - ?p2\<bar> \<le> 2 * t + 2 * Q"
      using b1 p2(2) by linarith
    with top have "\<bar>area + ?p1 - ?p2\<bar> \<le> 2 ^ 53" by linarith
    with a2 have f4: "fsub (area + ?p1) ?p2 = area + ?p1 - ?p2"
      unfolding fsub_def by (intro fl_int)
    have "2 * t + 2 * Q = 2 * real (i + 1) * ?Q"
      by (simp add: t_def Q_def algebra_simps)
    with b2' have b2: "\<bar>area + ?p1 - ?p2\<bar> \<le> 2 * real (i + 1) * ?Q" by simp
    have step: "area_loop pts i area = area_loop pts (i + 1) (area + ?p1 - ?p2)"
      using True by (subst area_loop.simps) (simp only: Let_def f1 f2 f3 f4 if_True)
    from True have le: "i + 1 \<le> ?n" by simp
    note IH = "1.IH" [OF True refl refl refl, unfolded f1 f2 f3 f4, OF "1.prems"(1,2) a2 b2 le]
    note e = IH [THEN conjunct1]
    note z = IH [THEN conjunct2, THEN conjunct1]
    note bnd = IH [THEN conjunct2, THEN conjunct2]
    have sum: "(\<Sum>k = i..<?n. px (pts ! k) * py (pts ! ((k + 1) mod ?n))
                                  - px (pts ! ((k + 1) mod ?n)) * py (pts ! k))
               = (?p1 - ?p2) + (\<Sum>k = i + 1..<?n. px (pts ! k) * py (pts ! ((k + 1) mod ?n))
                                  - px (pts ! ((k + 1) mod ?n)) * py (pts ! k))"
      using True by (simp add: sum.atLeast_Suc_lessThan)
    show ?thesis
      unfolding step
    proof (intro conjI)
      show "area_loop pts (i + 1) (area + ?p1 - ?p2) =
              area + (\<Sum>k = i..<?n. px (pts ! k) * py (pts ! ((k + 1) mod ?n))
                                  - px (pts ! ((k + 1) mod ?n)) * py (pts ! k))"
        unfolding e sum by simp
      show "area_loop pts (i + 1) (area + ?p1 - ?p2) \<in> \<int>" by (rule z)
      show "\<bar>area_loop pts (i + 1) (area + ?p1 - ?p2)\<bar> \<le> 2 * real ?n * ?Q" by (rule bnd)
    qed
  qed
qed

lemma area_loop_shoelace:
  assumes "int_coords B ps" and "2 * real (length ps) * (real B * real B) \<le> 2 ^ 53"
  shows "\<bar>area_loop ps 0 0\<bar> / 2 = shoelace ps"
    and "area_loop ps 0 0 \<in> \<int>"
    and "\<bar>area_loop ps 0 0\<bar> \<le> 2 ^ 53"
proof -
  have e: "area_loop ps 0 0 =
           0 + (\<Sum>k = 0..<length ps. px (ps ! k) * py (ps ! ((k + 1) mod length ps))
                                           - px (ps ! ((k + 1) mod length ps)) * py (ps ! k))
         \<and> area_loop ps 0 0 \<in> \<int>
         \<and> \<bar>area_loop ps 0 0\<bar> \<le> 2 * real (length ps) * (real B * real B)"
    by (rule area_loop_exact [OF assms]) simp_all
  then show "\<bar>area_loop ps 0 0\<bar> / 2 = shoelace ps"
    by (simp add: shoelace_def lessThan_atLeast0)
  from e show "area_loop ps 0 0 \<in> \<int>" by blast
  from e assms(2) show "\<bar>area_loop ps 0 0\<bar> \<le> 2 ^ 53" by linarith
qed

lemma calculatePolygonArea_shoelace:
  assumes "int_coords B ps" and "2 * real (length ps) * (real B * real B) \<le> 2 ^ 53"
  shows "calculatePolygonArea ps =
     (if length ps < 3 then Num 0 else Str (toFixed1 (fl (shoelace ps / 2500))))"
proof -
  let ?S = "area_loop ps 0 0"
  note s = area_loop_shoelace [OF assms]
  have "(\<bar>?S\<bar> / 2) * 2 \<in> \<int>" using s(2) by simp
  moreover have "\<bar>(\<bar>?S\<bar> / 2) * 2\<bar> \<le> 2 ^ 53" using s(3) by simp
  ultimately have h: "fdiv \<bar>?S\<bar> 2 = \<bar>?S\<bar> / 2"
    unfolding fdiv_def by (rule fl_half)
  have c: "fmul 50 50 = 2500" by (simp add: fmul_def)
  show ?thesis
    by (simp add: calculatePolygonArea_def Let_def h c s(1)) (simp add: fdiv_def)
qed

lemma square100_area: "calculatePolygonArea square100 = Str ''4.0''"
  by (simp add: calculatePolygonArea_def square100_def area_loop.simps fadd_def fsub_def
        fmul_def fdiv_def toFixed1_def show_nat.simps digit_char_def Let_def)

lemma triangle_30_25_area: "calculatePolygonArea triangle_30_25 = Str ''0.1''"
proof -
  have a: "calculatePolygonArea triangle_30_25 = Str (toFixed1 (fl (3 / 20)))"
    by (simp add: calculatePolygonArea_def triangle_30_25_def area_loop.simps fadd_def fsub_def
        fmul_def fdiv_def Let_def fl_half)
  have e: "fl (3 / 20) = 5404319552844595 / 36028797018963968"
    by (simp add: fl_def scale_down.simps scale_up.simps rhe_def Let_def)
  have t: "toFixed1 (5404319552844595 / 36028797018963968) = ''0.1''"
    by (simp add: toFixed1_def show_nat.simps digit_char_def Let_def)
  show ?thesis by (simp only: a e t)
qed

subsection \<open>Rotation and reversal of the vertex order\<close>

definition cross :: "point \<Rightarrow> point \<Rightarrow> real" where
  "cross p q = px p * py q - px q * py p"

definition edge_sum :: "point list \<Rightarrow> real" where
  "edge_sum ps = sum_list (map2 cross ps (rotate1 ps))"

lemma shoelace_edge_sum: "shoelace ps = \<bar>edge_sum ps\<bar> / 2"
proof -
  have "edge_sum ps = (\<Sum>i = 0..<length ps. map2 cross ps (rotate1 ps) ! i)"
    unfolding edge_sum_def by (subst sum_list_sum_nth) simp
  also have "\<dots> = (\<Sum>i = 0..<length ps. cross (ps ! i) (ps ! ((i + 1) mod length ps)))"
    by (rule sum.cong) (simp_all add: nth_rotate1)
  finally show ?thesis
    by (simp add: shoelace_def cross_def lessThan_atLeast0)
qed

lemma zip_rotate1:
  assumes "length xs = length ys"
  shows "zip (rotate1 xs) (rotate1 ys) = rotate1 (zip xs ys)"
proof (cases xs)
  case Nil
  with assms show ?thesis by simp
next
  case (Cons a as)
  with assms obtain b bs where ys: "ys = b # bs" and len: "length as = length bs"
    by (cases ys) auto
  from Cons ys len show ?thesis by simp
qed

lemma sum_list_rotate1: "sum_list (rotate1 (xs :: real list)) = sum_list xs"
  by (cases xs) simp_all

lemma edge_sum_rotate1: "edge_sum (rotate1 ps) = edge_sum ps"
proof -
  have "map2 cross (rotate1 ps) (rotate1 (rotate1 ps)) = rotate1 (map2 cross ps (rotate1 ps))"
    by (simp add: zip_rotate1 rotate1_map)
  then show ?thesis
    by (simp add: edge_sum_def sum_list_rotate1)
qed

lemma edge_sum_rotate: "edge_sum (rotate k ps) = edge_sum ps"
  by (induction k) (simp_all add: edge_sum_rotate1)

lemma map2_cross_swap: "sum_list (map2 cross xs ys) = - sum_list (map2 cross ys xs)"
proof (induction xs arbitrary: ys)
  case Nil
  then show ?case by simp
next
  case (Cons x xs)
  then show ?case by (cases ys) (simp_all add: cross_def)
qed

lemma edge_sum_back: "sum_list (map2 cross (rotate1 qs) qs) = - edge_sum qs"
  unfolding edge_sum_def by (rule map2_cross_swap)

lemma edge_sum_rev: "edge_sum (rev ps) = - edge_sum ps"
proof (cases "length ps < 2")
  case True
  then consider "ps = []" | a where "ps = [a]"
    by (cases ps) (auto simp: length_Suc_conv)
  then show ?thesis
    by cases (simp_all add: edge_sum_def cross_def)
next
  case False
  define n where "n = length ps"
  define qs where "qs = rotate (n - 1) ps"
  from False have n2: "2 \<le> n" by (simp add: n_def)
  then have m: "1 mod n = 1" by simp
  have "rotate1 (rev ps) = rotate 1 (rev ps)" by simp
  also have "\<dots> = rev qs"
    by (simp only: rotate_rev qs_def n_def [symmetric] m)
  finally have r: "rotate1 (rev ps) = rev qs" .
  have sn: "Suc (n - 1) = length ps" using n2 by (simp add: n_def)
  have "rotate1 qs = rotate (Suc (n - 1)) ps" by (simp only: qs_def rotate_Suc)
  also have "\<dots> = ps" unfolding sn by (rule rotate_id) simp
  finally have p: "rotate1 qs = ps" .
  have "edge_sum (rev ps) = sum_list (map2 cross (rev ps) (rev qs))"
    by (simp only: edge_sum_def r)
  also have "\<dots> = sum_list (rev (map2 cross ps qs))"
    by (simp add: zip_rev qs_def rev_map)
  also have "\<dots> = sum_list (map2 cross (rotate1 qs) qs)"
    by (simp only: sum_list_rev p)
  also have "\<dots> = - edge_sum qs" by (rule edge_sum_back)
  also have "\<dots> = - edge_sum ps" by (simp add: qs_def edge_sum_rotate)
  finally show ?thesis .
qed

lemma shoelace_rotate: "shoelace (rotate k ps) = shoelace ps"
  by (simp add: shoelace_edge_sum edge_sum_rotate)

lemma shoelace_rev: "shoelace (rev ps) = shoelace ps"
  by (simp add: shoelace_edge_sum edge_sum_rev)

lemma area_loop_edge_sum:
  assumes "int_coords B ps" and "2 * real (length ps) * (real B * real B) \<le> 2 ^ 53"
  shows "area_loop ps 0 0 = edge_sum ps"
proof -
  have "area_loop ps 0 0 =
           0 + (\<Sum>k = 0..<length ps. px (ps ! k) * py (ps ! ((k + 1) mod length ps))
                                           - px (ps ! ((k + 1) mod length ps)) * py (ps ! k))"
    by (rule area_loop_exact [OF assms, THEN conjunct1]) simp_all
  also have "\<dots> = (\<Sum>i = 0..<length ps. cross (ps ! i) (ps ! ((i + 1) mod length ps)))"
    by (simp add: cross_def)
  also have "\<dots> = (\<Sum>i = 0..<length ps. map2 cross ps (rotate1 ps) ! i)"
    by (rule sum.cong) (simp_all add: nth_rotate1)
  also have "\<dots> = edge_sum ps"
    unfolding edge_sum_def by (subst sum_list_sum_nth) simp
  finally show ?thesis .
qed

lemma int_coords_rotate: "int_coords B (rotate k ps) = int_coords B ps"
  by (simp add: int_coords_def)

lemma int_coords_rev: "int_coords B (rev ps) = int_coords B ps"
  by (simp add: int_coords_def)

lemma polygon_area_rotate:
  assumes "int_coords B ps" and "2 * real (length ps) * (real B * real B) \<le> 2 ^ 53"
  shows "calculatePolygonArea (rotate k ps) = calculatePolygonArea ps"
proof -
  have "int_coords B (rotate k ps)" using assms(1) by (simp add: int_coords_rotate)
  moreover have "2 * real (length (rotate k ps)) * (real B * real B) \<le> 2 ^ 53"
    using assms(2) by simp
  ultimately have "calculatePolygonArea (rotate k ps) =
     (if length (rotate k ps) < 3 then Num 0
      else Str (toFixed1 (fl (shoelace (rotate k ps) / 2500))))"
    by (rule calculatePolygonArea_shoelace)
  then show ?thesis
    by (simp add: shoelace_rotate calculatePolygonArea_shoelace [OF assms])
qed

lemma polygon_area_rev:
  assumes "int_coords B ps" and "2 * real (length ps) * (real B * real B) \<le> 2 ^ 53"
  shows "calculatePolygonArea (rev ps) = calculatePolygonArea ps"
proof -
  have "int_coords B (rev ps)" using assms(1) by (simp add: int_coords_rev)
  moreover have "2 * real (length (rev ps)) * (real B * real B) \<le> 2 ^ 53"
    using assms(2) by simp
  ultimately have "calculatePolygonArea (rev ps) =
     (if length (rev ps) < 3 then Num 0
      else Str (toFixed1 (fl (shoelace (rev ps) / 2500))))"
    by (rule calculatePolygonArea_shoelace)
  then show ?thesis
    by (simp add: shoelace_rev calculatePolygonArea_shoelace [OF assms])
qed

lemma area_loop_rev:
  assumes "int_coords B ps" and "2 * real (length ps) * (real B * real B) \<le> 2 ^ 53"
  shows "area_loop (rev ps) 0 0 = - area_loop ps 0 0"
proof -
  have "int_coords B (rev ps)" using assms(1) by (simp add: int_coords_rev)
  moreover have "2 * real (length (rev ps)) * (real B * real B) \<le> 2 ^ 53"
    using assms(2) by simp
  ultimately have "area_loop (rev ps) 0 0 = edge_sum (rev ps)"
    by (rule area_loop_edge_sum)
  then show ?thesis
    by (simp add: edge_sum_rev area_loop_edge_sum [OF assms])
qed

text \<open>
  World points of clicks on an 800 by 600 canvas after one zoom-in from the initial
  view: the scale is the double 1.2, the pan is (-80, -60), and the world coordinate of a
  click at canvas coordinate c is (c - pan) / scale in doubles.
\<close>

definition zoomed :: "real \<Rightarrow> real \<Rightarrow> point" where
  "zoomed cx cy = \<lparr> px = fdiv (fsub cx (- 80)) (fl (12 / 10)),
                    py = fdiv (fsub cy (- 60)) (fl (12 / 10)) \<rparr>"

definition zoomed_triangle :: "point list" where
  "zoomed_triangle = [zoomed 54 24, zoomed 8 18, zoomed 12 42]"

lemmas fl_eval_39_55 =
  fl_eval_up [of _ 39] fl_eval_up [of _ 40] fl_eval_up [of _ 41] fl_eval_up [of _ 42]
  fl_eval_up [of _ 43] fl_eval_up [of _ 44] fl_eval_up [of _ 45] fl_eval_up [of _ 46]
  fl_eval_up [of _ 52] fl_eval_up [of _ 55]

lemma zoomed_triangle_points:
  "zoomed_triangle =
     [\<lparr>px = 7857843099839147 / 2 ^ 46, py = 70\<rparr>,
      \<lparr>px = 2580187286514347 / 2 ^ 45, py = 65\<rparr>,
      \<lparr>px = 5394937053620907 / 2 ^ 46, py = 85\<rparr>]"
  by (simp add: zoomed_triangle_def zoomed_def fsub_def fdiv_def fl_eval_39_55 rhe_def)

lemma zoomed_triangle_forward: "calculatePolygonArea zoomed_triangle = Str ''0.1''"
  unfolding zoomed_triangle_points
  by (simp add: calculatePolygonArea_eval area_loop_step area_loop_done fadd_def fsub_def
        fmul_def fdiv_def fl_eval_39_55 fl_neg rhe_def toFixed1_def show_nat.simps
        digit_char_def Let_def)

lemma zoomed_triangle_rotated: "calculatePolygonArea (rotate 1 zoomed_triangle) = Str ''0.2''"
  unfolding zoomed_triangle_points
  by (simp add: calculatePolygonArea_eval area_loop_step area_loop_done fadd_def fsub_def
        fmul_def fdiv_def fl_eval_39_55 fl_neg rhe_def toFixed1_def show_nat.simps
        digit_char_def Let_def)

lemma zoomed_triangle_reversed: "calculatePolygonArea (rev zoomed_triangle) = Str ''0.2''"
  unfolding zoomed_triangle_points
  by (simp add: calculatePolygonArea_eval area_loop_step area_loop_done fadd_def fsub_def
        fmul_def fdiv_def fl_eval_39_55 fl_neg rhe_def toFixed1_def show_nat.simps
        digit_char_def Let_def)

subsection \<open>Reading back a formatted number\<close>

definition round1 :: "real \<Rightarrow> real" where
  "round1 x = (if x < 0 then - (real (nat \<lfloor>- x * 10 + 1 / 2\<rfloor>) / 10)
               else real (nat \<lfloor>x * 10 + 1 / 2\<rfloor>) / 10)"

lemma digit_cases:
  assumes "d < (10::nat)"
  shows "d \<in> {0, 1, 2, 3, 4, 5, 6, 7, 8, 9}"
  using assms by auto

lemma digit_char_is_digit: "d < 10 \<Longrightarrow> is_digit (digit_char d)"
  by (drule digit_cases) (auto simp: digit_char_def is_digit_def)

lemma digit_val_digit_char: "d < 10 \<Longrightarrow> digit_val (digit_char d) = d"
  by (drule digit_cases) (auto simp: digit_char_def digit_val_def)

lemma show_nat_digits: "c \<in> set (show_nat n) \<Longrightarrow> is_digit c"
proof (induction n arbitrary: c rule: show_nat.induct)
  case (1 n)
  show ?case
  proof (cases "n < 10")
    case True
    with "1.prems" show ?thesis
      by (subst (asm) show_nat.simps) (simp add: digit_char_is_digit)
  next
    case False
    with "1.prems" have "c \<in> set (show_nat (n div 10)) \<or> c = digit_char (n mod 10)"
      by (subst (asm) show_nat.simps) auto
    with False "1.IH" show ?thesis
      by (auto simp: digit_char_is_digit)
  qed
qed

lemma show_nat_nonempty: "show_nat n \<noteq> []"
  by (subst show_nat.simps) simp

lemma digits_val_snoc: "digits_val acc (xs @ [c]) = digits_val acc xs * 10 + digit_val c"
  by (induction xs arbitrary: acc) simp_all

lemma digits_val_show_nat: "digits_val 0 (show_nat n) = n"
proof (induction n rule: show_nat.induct)
  case (1 n)
  show ?case
  proof (cases "n < 10")
    case True
    then show ?thesis
      by (subst show_nat.simps) (simp add: digit_val_digit_char)
  next
    case False
    with "1.IH" show ?thesis
      by (subst show_nat.simps) (simp add: digits_val_snoc digit_val_digit_char)
  qed
qed

lemma parse_decimal:
  assumes "d < 10"
  shows "parseFloat_str (show_nat k @ ''.'' @ [digit_char d]) = Some (fl (real k + real d / 10))"
    and "parseFloat_str (''-'' @ show_nat k @ ''.'' @ [digit_char d])
           = Some (fl (- (real k + real d / 10)))"
proof -
  let ?m = "show_nat k @ ''.'' @ [digit_char d]"
  have dot: "\<not> is_digit CHR ''.''" by (simp add: is_digit_def)
  have minus: "\<not> is_digit CHR ''-''" by (simp add: is_digit_def)
  have tw: "takeWhile is_digit ?m = show_nat k"
    using show_nat_digits dot by (simp add: takeWhile_append2)
  have dw: "dropWhile is_digit ?m = ''.'' @ [digit_char d]"
    using show_nat_digits dot by (simp add: dropWhile_append2)
  have "hd ?m \<in> set (show_nat k)"
    using show_nat_nonempty [of k] by simp
  then have "is_digit (hd ?m)" by (rule show_nat_digits)
  with minus have hd: "hd ?m \<noteq> CHR ''-''" by metis
  have ne: "?m \<noteq> []" by simp
  have fp: "takeWhile is_digit [digit_char d] = [digit_char d]"
    using assms by (simp add: digit_char_is_digit)
  show "parseFloat_str ?m = Some (fl (real k + real d / 10))"
    unfolding parseFloat_str_def Let_def
    using hd tw dw fp show_nat_nonempty [of k] assms
    by (simp add: digits_val_show_nat digit_val_digit_char)
  show "parseFloat_str (''-'' @ ?m) = Some (fl (- (real k + real d / 10)))"
    unfolding parseFloat_str_def Let_def
    using tw dw fp show_nat_nonempty [of k] assms
    by (simp add: digits_val_show_nat digit_val_digit_char)
qed

lemma parseFloat_toFixed1: "parseFloat_str (toFixed1 x) = Some (fl (round1 x))"
proof -
  have split: "real (n div 10) + real (n mod 10) / 10 = real n / 10" for n :: nat
  proof -
    have "real n = real (n div 10 * 10 + n mod 10)" by simp
    also have "\<dots> = real (n div 10) * 10 + real (n mod 10)"
      by (simp only: of_nat_add of_nat_mult of_nat_numeral)
    finally show ?thesis by simp
  qed
  have d: "n mod 10 < 10" for n :: nat by simp
  show ?thesis
  proof (cases "x < 0")
    case True
    define n where "n = nat \<lfloor>- x * 10 + 1 / 2\<rfloor>"
    from True have "toFixed1 x = ''-'' @ show_nat (n div 10) @ ''.'' @ [digit_char (n mod 10)]"
      by (simp add: toFixed1_def Let_def n_def)
    then have "parseFloat_str (toFixed1 x)
                 = Some (fl (- (real (n div 10) + real (n mod 10) / 10)))"
      using parse_decimal(2) [OF d] by simp
    also have "\<dots> = Some (fl (- (real n / 10)))" by (simp only: split)
    also have "\<dots> = Some (fl (round1 x))" using True by (simp add: round1_def n_def)
    finally show ?thesis .
  next
    case False
    define n where "n = nat \<lfloor>x * 10 + 1 / 2\<rfloor>"
    from False have "toFixed1 x = show_nat (n div 10) @ ''.'' @ [digit_char (n mod 10)]"
      by (simp add: toFixed1_def Let_def n_def)
    then have "parseFloat_str (toFixed1 x) = Some (fl (real (n div 10) + real (n mod 10) / 10))"
      using parse_decimal(1) [OF d] by simp
    also have "\<dots> = Some (fl (real n / 10))" by (simp only: split)
    also have "\<dots> = Some (fl (round1 x))" using False by (simp add: round1_def n_def)
    finally show ?thesis .
  qed
qed

lemma shoelace_range:
  assumes "int_coords B ps" and "2 * real (length ps) * (real B * real B) \<le> 2 ^ 53"
  shows "0 \<le> fl (shoelace ps / 2500) \<and> fl (shoelace ps / 2500) < 10 ^ 21"
proof -
  note s = area_loop_shoelace [OF assms]
  have "0 \<le> shoelace ps / 2500" using s(1) [symmetric] by simp
  moreover have "shoelace ps / 2500 < 2 ^ 53" using s(1) [symmetric] s(3) by simp
  ultimately have "0 \<le> fl (shoelace ps / 2500) \<and> fl (shoelace ps / 2500) \<le> 2 ^ 53"
    by (rule fl_range)
  then show ?thesis by simp
qed


subsection \<open>Results on the polygon area\<close>

lemma int_coords_square100: "int_coords 100 square100"
  by (simp add: int_coords_def square100_def)

lemma bound_square100: "2 * real (length square100) * (real 100 * real 100) \<le> 2 ^ 53"
  by (simp add: square100_def)

text \<open>
  C4 (as amended). For fewer than three points \<open>calculatePolygonArea\<close> returns the
  number 0. For at least three points whose coordinates are integers of magnitude at most
  B, with 2 n B B at most 2^53 for the n points (the loop is then exact in doubles), it
  returns the shoelace value |\<Sum> (x_i y_(i+1) - x_(i+1) y_i)| / 2 with wrap-around
  indexing, divided by 2500 (50 pixels are 1 metre), rounded to the nearest double and
  formatted with one decimal as a string; the rounded quotient is below 1e21, where
  \<open>toFixed\<close> prints fixed notation. For the boundary (0,0), (100,0), (100,100),
  (0,100) the shoelace value is 10000 and the result is the string 4.0; for (0,0), (30,0),
  (0,25) the quotient 375 / 2500 is a double just below 0.15 and the result is 0.1.
\<close>

theorem polygon_area_shoelace_square_metres:
  "(length qs < 3 \<longrightarrow> calculatePolygonArea qs = Num 0)
   \<and> (3 \<le> length ps \<and> int_coords B ps \<and> 2 * real (length ps) * (real B * real B) \<le> 2 ^ 53
        \<longrightarrow> calculatePolygonArea ps = Str (toFixed1 (fl (shoelace ps / 2500)))
            \<and> fl (shoelace ps / 2500) < 10 ^ 21)
   \<and> shoelace square100 = 10000
   \<and> calculatePolygonArea square100 = Str ''4.0''
   \<and> calculatePolygonArea triangle_30_25 = Str ''0.1''"
proof -
  have a: "length qs < 3 \<longrightarrow> calculatePolygonArea qs = Num 0"
    by (simp add: calculatePolygonArea_def)
  have b: "3 \<le> length ps \<and> int_coords B ps
           \<and> 2 * real (length ps) * (real B * real B) \<le> 2 ^ 53
        \<longrightarrow> calculatePolygonArea ps = Str (toFixed1 (fl (shoelace ps / 2500)))
            \<and> fl (shoelace ps / 2500) < 10 ^ 21"
    using calculatePolygonArea_shoelace [of B ps] shoelace_range [of B ps] by auto
  have c: "shoelace square100 = 10000"
    by (simp add: shoelace_def square100_def lessThan_nat_numeral lessThan_Suc)
  from a b c square100_area triangle_30_25_area show ?thesis by blast
qed

theorem polygon_area_shoelace_square_metres_witness:
  "3 \<le> length square100 \<and> int_coords 100 square100
   \<and> 2 * real (length square100) * (real 100 * real 100) \<le> 2 ^ 53
   \<and> calculatePolygonArea square100 = Str (toFixed1 (fl (shoelace square100 / 2500)))
   \<and> fl (shoelace square100 / 2500) < 10 ^ 21
   \<and> length [hd square100] < 3
   \<and> calculatePolygonArea [hd square100] = Num 0"
proof -
  have l: "3 \<le> length square100" by (simp add: square100_def)
  have s: "length [hd square100] < 3" by simp
  from polygon_area_shoelace_square_metres [of "[hd square100]" square100 100]
    l s int_coords_square100 bound_square100
  show ?thesis by blast
qed

text \<open>The claim as stated fails: the result for the square is 4.0, not 10000.\<close>

theorem square100_area_is_not_10000:
  "calculatePolygonArea square100 = Str ''4.0''
   \<and> parseFloat (calculatePolygonArea square100) = Some 4
   \<and> parseFloat (calculatePolygonArea square100) \<noteq> Some 10000
   \<and> calculatePolygonArea square100 \<noteq> Num 10000"
  by (simp add: square100_area parseFloat_str_def is_digit_def digit_val_def Let_def)

text \<open>
  C5 (as amended). For a polygon whose coordinates are integers of magnitude at most B,
  with 2 n B B at most 2^53 for its n points, the result of \<open>calculatePolygonArea\<close> is
  the same for every cyclic rotation of the vertex list and for the reversed vertex list:
  the sum accumulated by the loop changes sign under reversal, and \<open>Math.abs\<close> removes
  the sign before the result is formed. For other coordinates the loop rounds after every
  operation and the result can depend on the vertex order.
\<close>

theorem polygon_area_rotation_reversal:
  assumes "int_coords B ps" and "2 * real (length ps) * (real B * real B) \<le> 2 ^ 53"
  shows "calculatePolygonArea (rotate k ps) = calculatePolygonArea ps
       \<and> calculatePolygonArea (rev ps) = calculatePolygonArea ps
       \<and> area_loop (rev ps) 0 0 = - area_loop ps 0 0"
  using polygon_area_rotate [OF assms] polygon_area_rev [OF assms] area_loop_rev [OF assms]
  by blast

theorem polygon_area_rotation_reversal_witness:
  "int_coords 100 square100
   \<and> 2 * real (length square100) * (real 100 * real 100) \<le> 2 ^ 53
   \<and> calculatePolygonArea (rotate 1 square100) = calculatePolygonArea square100
   \<and> calculatePolygonArea (rev square100) = calculatePolygonArea square100
   \<and> area_loop (rev square100) 0 0 = - area_loop square100 0 0"
  using polygon_area_rotation_reversal [OF int_coords_square100 bound_square100, of 1]
    int_coords_square100 bound_square100
  by blast

text \<open>
  The claim as stated fails. The reversed square has the same area 4.0, not -4.0. And for
  the triangle clicked at (54,24), (8,18), (12,42) after one zoom-in, the result is 0.1 in
  the given order and 0.2 both after one rotation and after reversal.
\<close>

theorem reversed_square_area_keeps_sign:
  "3 \<le> length square100
   \<and> parseFloat (calculatePolygonArea square100) = Some 4
   \<and> parseFloat (calculatePolygonArea (rev square100)) = Some 4
   \<and> parseFloat (calculatePolygonArea (rev square100)) \<noteq> Some (- 4)
   \<and> calculatePolygonArea zoomed_triangle = Str ''0.1''
   \<and> calculatePolygonArea (rotate 1 zoomed_triangle) = Str ''0.2''
   \<and> calculatePolygonArea (rev zoomed_triangle) = Str ''0.2''"
proof -
  have "3 \<le> length square100" by (simp add: square100_def)
  moreover have "parseFloat (Str ''4.0'') = Some 4"
    by (simp add: parseFloat_str_def is_digit_def digit_val_def Let_def)
  moreover have "calculatePolygonArea (rev square100) = Str ''4.0''"
    using polygon_area_rev [OF int_coords_square100 bound_square100] square100_area by simp
  ultimately show ?thesis
    using square100_area zoomed_triangle_forward zoomed_triangle_rotated
      zoomed_triangle_reversed
    by simp
qed

subsection \<open>Point in polygon and the grid estimate of a union area\<close>

text \<open>The \<open>for\<close> loop of \<open>isPointInPolygon\<close>: \<open>j\<close> trails \<open>i\<close> by one edge. The
  crossing abscissa \<open>(xj - xi) * (point.y - yi) / (yj - yi) + xi\<close> is computed in doubles,
  left to right.\<close>

function pip_loop :: "point \<Rightarrow> point list \<Rightarrow> nat \<Rightarrow> nat \<Rightarrow> bool \<Rightarrow> bool" where
  "pip_loop point polygon i j inside =
     (if i < length polygon
      then (let xi = px (polygon ! i);
                yi = py (polygon ! i);
                xj = px (polygon ! j);
                yj = py (polygon ! j);
                inside1 = (if ((yi > py point) \<noteq> (yj > py point))
                              \<and> (px point
                                    < fadd (fdiv (fmul (fsub xj xi) (fsub (py point) yi))
                                                 (fsub yj yi)) xi)
                           then \<not> inside else inside)
            in pip_loop point polygon (i + 1) i inside1)
      else inside)"
  by pat_completeness auto
termination
  by (relation "measure (\<lambda>(point, polygon, i, j, inside). length polygon - i)") auto

declare pip_loop.simps [simp del]

lemma pip_loop_step:
  "i < length polygon \<Longrightarrow>
     pip_loop point polygon i j inside =
       pip_loop point polygon (i + 1) i
         (if ((py (polygon ! i) > py point) \<noteq> (py (polygon ! j) > py point))
             \<and> (px point
                   < fadd (fdiv (fmul (fsub (px (polygon ! j)) (px (polygon ! i)))
                                      (fsub (py point) (py (polygon ! i))))
                                (fsub (py (polygon ! j)) (py (polygon ! i))))
                          (px (polygon ! i)))
          then \<not> inside else inside)"
  by (subst pip_loop.simps) (simp add: Let_def)

lemma pip_loop_done: "\<not> i < length polygon \<Longrightarrow> pip_loop point polygon i j inside = inside"
  by (subst pip_loop.simps) simp

definition isPointInPolygon :: "point \<Rightarrow> point list \<Rightarrow> bool" where
  "isPointInPolygon point polygon =
     (if length polygon < 3 then False
      else pip_loop point polygon 0 (length polygon - 1) False)"

text \<open>
  The bounding box starts at (Infinity, -Infinity, Infinity, -Infinity); \<open>None\<close> stands
  for the infinite start value, which the first point replaces. \<open>Math.min\<close> and
  \<open>Math.max\<close> do not round.
\<close>

fun lower :: "real option \<Rightarrow> real \<Rightarrow> real option" where
  "lower None v = Some v"
| "lower (Some m) v = Some (min m v)"

fun upper :: "real option \<Rightarrow> real \<Rightarrow> real option" where
  "upper None v = Some v"
| "upper (Some m) v = Some (max m v)"

type_synonym bounds = "real option \<times> real option \<times> real option \<times> real option"

fun extend_bounds :: "point \<Rightarrow> bounds \<Rightarrow> bounds" where
  "extend_bounds point (minX, maxX, minY, maxY) =
     (lower minX (px point), upper maxX (px point),
      lower minY (py point), upper maxY (py point))"

definition boundingBox :: "point list list \<Rightarrow> bounds" where
  "boundingBox polygons =
     fold (\<lambda>polygon b. fold extend_bounds polygon b) polygons (None, None, None, None)"

text \<open>The two nested \<open>for\<close> loops over the grid cells; the cell centre is
  \<open>minX + (i + 0.5) * cellSize\<close> in doubles.\<close>

definition cellCentre :: "real \<Rightarrow> real \<Rightarrow> real \<Rightarrow> nat \<Rightarrow> nat \<Rightarrow> point" where
  "cellCentre minX minY cellSize i j =
     \<lparr> px = fadd minX (fmul (fadd (real i) (5 / 10)) cellSize),
       py = fadd minY (fmul (fadd (real j) (5 / 10)) cellSize) \<rparr>"

function cells_j ::
  "point list list \<Rightarrow> real \<Rightarrow> real \<Rightarrow> real \<Rightarrow> nat \<Rightarrow> nat \<Rightarrow> nat \<Rightarrow> nat \<Rightarrow> nat" where
  "cells_j polygons minX minY cellSize gridHeight i j coveredCells =
     (if j < gridHeight
      then (let isInsideAnyObstacle =
                  list_ex (\<lambda>polygon. isPointInPolygon (cellCentre minX minY cellSize i j) polygon)
                    polygons
            in cells_j polygons minX minY cellSize gridHeight i (j + 1)
                 (if isInsideAnyObstacle then coveredCells + 1 else coveredCells))
      else coveredCells)"
  by pat_completeness auto
termination
  by (relation "measure (\<lambda>(polygons, minX, minY, cellSize, gridHeight, i, j, c). gridHeight - j)")
     auto

function cells_i ::
  "point list list \<Rightarrow> real \<Rightarrow> real \<Rightarrow> real \<Rightarrow> nat \<Rightarrow> nat \<Rightarrow> nat \<Rightarrow> nat \<Rightarrow> nat" where
  "cells_i polygons minX minY cellSize gridWidth gridHeight i coveredCells =
     (if i < gridWidth
      then cells_i polygons minX minY cellSize gridWidth gridHeight (i + 1)
             (cells_j polygons minX minY cellSize gridHeight i 0 coveredCells)
      else coveredCells)"
  by pat_completeness auto
termination
  by (relation "measure (\<lambda>(polygons, minX, minY, cellSize, gridWidth, gridHeight, i, c). gridWidth - i)")
     auto

declare cells_j.simps [simp del] cells_i.simps [simp del]

lemma cells_j_step:
  "j < gridHeight \<Longrightarrow>
     cells_j polygons minX minY cellSize gridHeight i j coveredCells =
       cells_j polygons minX minY cellSize gridHeight i (j + 1)
         (if list_ex (\<lambda>polygon. isPointInPolygon (cellCentre minX minY cellSize i j) polygon)
               polygons
          then coveredCells + 1 else coveredCells)"
  by (subst cells_j.simps) (simp add: Let_def)

lemma cells_j_done:
  "\<not> j < gridHeight \<Longrightarrow>
     cells_j polygons minX minY cellSize gridHeight i j coveredCells = coveredCells"
  by (subst cells_j.simps) simp

lemma cells_i_step:
  "i < gridWidth \<Longrightarrow>
     cells_i polygons minX minY cellSize gridWidth gridHeight i coveredCells =
       cells_i polygons minX minY cellSize gridWidth gridHeight (i + 1)
         (cells_j polygons minX minY cellSize gridHeight i 0 coveredCells)"
  by (subst cells_i.simps) simp

lemma cells_i_done:
  "\<not> i < gridWidth \<Longrightarrow>
     cells_i polygons minX minY cellSize gridWidth gridHeight i coveredCells = coveredCells"
  by (subst cells_i.simps) simp

text \<open>
  \<open>calculateUnionArea\<close> returns a number; \<open>None\<close> is NaN, which \<open>parseFloat\<close> could
  produce. Without any point the bounds stay infinite, both grid dimensions are
  \<open>-Infinity\<close>, the loops do not run and the result is 0. The counters \<open>i\<close>, \<open>j\<close> and
  \<open>coveredCells\<close> are doubles holding integers; they are natural numbers here, which is
  what they hold below 2^53.
\<close>

definition calculateUnionArea :: "point list list \<Rightarrow> real option" where
  "calculateUnionArea polygons =
     (if length polygons = 0 then Some 0
      else if length polygons = 1 then parseFloat (calculatePolygonArea (polygons ! 0))
      else (case boundingBox polygons of
              (Some minX, Some maxX, Some minY, Some maxY) \<Rightarrow>
                (let cellSize = 2;
                     gridWidth = nat \<lceil>fdiv (fsub maxX minX) cellSize\<rceil>;
                     gridHeight = nat \<lceil>fdiv (fsub maxY minY) cellSize\<rceil>;
                     coveredCells = cells_i polygons minX minY cellSize gridWidth gridHeight 0 0;
                     pixelArea = fmul (fmul (real coveredCells) cellSize) cellSize;
                     meterArea = fdiv pixelArea (fmul 50 50)
                 in Some meterArea)
            | _ \<Rightarrow> Some 0))"

definition calculateObstaclesArea :: "'a canvas_scheme \<Rightarrow> jsval" where
  "calculateObstaclesArea s =
     (let allObstacles = map points (obstacles s) @ map points (dynamicObstacles s)
      in if length allObstacles = 0 then Str ''0.0''
         else if length allObstacles = 1 then calculatePolygonArea (allObstacles ! 0)
         else (case calculateUnionArea allObstacles of
                 Some totalObstacleArea \<Rightarrow> Str (toFixed1 totalObstacleArea)
               | None \<Rightarrow> Str ''NaN''))"

text \<open>
  The grid in the words of the specification. The joint bounding box is the minimum and
  maximum of the coordinates of all points; the grid has cell size 2, its numbers of
  columns and rows are the extents of the box divided by 2 and rounded up, the extent and
  the quotient being doubles; the centre of column i is the double nearest to
  minX + (i + 1/2) * 2, and likewise for rows. A cell is covered when its centre is inside
  at least one polygon by \<open>isPointInPolygon\<close>.
\<close>

definition box_minX :: "point list list \<Rightarrow> real" where
  "box_minX polygons = Min (px ` set (concat polygons))"

definition box_maxX :: "point list list \<Rightarrow> real" where
  "box_maxX polygons = Max (px ` set (concat polygons))"

definition box_minY :: "point list list \<Rightarrow> real" where
  "box_minY polygons = Min (py ` set (concat polygons))"

definition box_maxY :: "point list list \<Rightarrow> real" where
  "box_maxY polygons = Max (py ` set (concat polygons))"

definition grid_width :: "point list list \<Rightarrow> nat" where
  "grid_width polygons =
     (if concat polygons = [] then 0
      else nat \<lceil>fl (fl (box_maxX polygons - box_minX polygons) / 2)\<rceil>)"

definition grid_height :: "point list list \<Rightarrow> nat" where
  "grid_height polygons =
     (if concat polygons = [] then 0
      else nat \<lceil>fl (fl (box_maxY polygons - box_minY polygons) / 2)\<rceil>)"

definition covered_cells :: "point list list \<Rightarrow> (nat \<times> nat) set" where
  "covered_cells polygons =
     {(i, j). i < grid_width polygons \<and> j < grid_height polygons
        \<and> (\<exists>polygon \<in> set polygons.
              isPointInPolygon
                \<lparr> px = fl (box_minX polygons + (real i + 1 / 2) * 2),
                  py = fl (box_minY polygons + (real j + 1 / 2) * 2) \<rparr> polygon)}"

text \<open>A grid of at most 2^25 columns and 2^25 rows.\<close>

definition feasible_grid :: "point list list \<Rightarrow> bool" where
  "feasible_grid polygons = (grid_width polygons \<le> 2 ^ 25 \<and> grid_height polygons \<le> 2 ^ 25)"

text \<open>The same grid in exact arithmetic, which is what the doubles give for integer
  coordinates.\<close>

definition exact_cells :: "point list list \<Rightarrow> (nat \<times> nat) set" where
  "exact_cells polygons =
     {(i, j). i < nat \<lceil>(box_maxX polygons - box_minX polygons) / 2\<rceil>
        \<and> j < nat \<lceil>(box_maxY polygons - box_minY polygons) / 2\<rceil>
        \<and> (\<exists>polygon \<in> set polygons.
              isPointInPolygon
                \<lparr> px = box_minX polygons + (real i + 1 / 2) * 2,
                  py = box_minY polygons + (real j + 1 / 2) * 2 \<rparr> polygon)}"

lemma Min_insert_min:
  assumes "finite A"
  shows "Min (insert (min a b) A) = Min (insert (a::real) (insert b A))"
proof (cases "A = {}")
  case True
  then show ?thesis by simp
next
  case False
  with assms show ?thesis by (simp add: min.assoc)
qed

lemma Max_insert_max:
  assumes "finite A"
  shows "Max (insert (max a b) A) = Max (insert (a::real) (insert b A))"
proof (cases "A = {}")
  case True
  then show ?thesis by simp
next
  case False
  with assms show ?thesis by (simp add: max.assoc)
qed

lemma fold_lower_Some:
  "fold (\<lambda>p m. lower m (f p)) pts (Some m0) = Some (Min (insert m0 (f ` set pts)))"
proof (induction pts arbitrary: m0)
  case Nil
  then show ?case by simp
next
  case (Cons p pts)
  then show ?case by (simp add: Min_insert_min)
qed

lemma fold_upper_Some:
  "fold (\<lambda>p m. upper m (f p)) pts (Some m0) = Some (Max (insert m0 (f ` set pts)))"
proof (induction pts arbitrary: m0)
  case Nil
  then show ?case by simp
next
  case (Cons p pts)
  then show ?case by (simp add: Max_insert_max)
qed

lemma fold_lower_None:
  "pts \<noteq> [] \<Longrightarrow> fold (\<lambda>p m. lower m (f p)) pts None = Some (Min (f ` set pts))"
  by (cases pts) (simp_all add: fold_lower_Some)

lemma fold_upper_None:
  "pts \<noteq> [] \<Longrightarrow> fold (\<lambda>p m. upper m (f p)) pts None = Some (Max (f ` set pts))"
  by (cases pts) (simp_all add: fold_upper_Some)

lemma fold_extend_bounds:
  "fold extend_bounds pts (a, b, c, d) =
     (fold (\<lambda>p m. lower m (px p)) pts a, fold (\<lambda>p m. upper m (px p)) pts b,
      fold (\<lambda>p m. lower m (py p)) pts c, fold (\<lambda>p m. upper m (py p)) pts d)"
  by (induction pts arbitrary: a b c d) simp_all

lemma boundingBox_concat:
  "boundingBox polygons = fold extend_bounds (concat polygons) (None, None, None, None)"
  unfolding boundingBox_def
  by (induction polygons arbitrary: rule: rev_induct) simp_all

lemma boundingBox_empty:
  assumes "concat polygons = []"
  shows "boundingBox polygons = (None, None, None, None)"
  unfolding boundingBox_concat assms by simp

lemma boundingBox_Min_Max:
  assumes "concat polygons \<noteq> []"
  shows "boundingBox polygons =
           (Some (box_minX polygons), Some (box_maxX polygons),
            Some (box_minY polygons), Some (box_maxY polygons))"
  by (simp only: boundingBox_concat fold_extend_bounds fold_lower_None [OF assms]
        fold_upper_None [OF assms] box_minX_def box_maxX_def box_minY_def box_maxY_def)

lemma cells_j_count:
  "cells_j polygons minX minY cs H i j c =
     c + card {j'. j \<le> j' \<and> j' < H
                \<and> (\<exists>polygon \<in> set polygons. isPointInPolygon (cellCentre minX minY cs i j') polygon)}"
proof (induction polygons minX minY cs H i j c rule: cells_j.induct)
  case (1 polygons minX minY cs H i j c)
  let ?Q = "\<lambda>j'. \<exists>polygon \<in> set polygons. isPointInPolygon (cellCentre minX minY cs i j') polygon"
  show ?case
  proof (cases "j < H")
    case True
    have split: "{j'. j \<le> j' \<and> j' < H \<and> ?Q j'}
                 = (if ?Q j then {j} else {}) \<union> {j'. j + 1 \<le> j' \<and> j' < H \<and> ?Q j'}"
      using True by (auto simp: Suc_le_eq le_less)
    have fin: "finite {j'. j + 1 \<le> j' \<and> j' < H \<and> ?Q j'}" by simp
    have notin: "j \<notin> {j'. j + 1 \<le> j' \<and> j' < H \<and> ?Q j'}" by simp
    have card: "card {j'. j \<le> j' \<and> j' < H \<and> ?Q j'}
                = (if ?Q j then 1 else 0) + card {j'. j + 1 \<le> j' \<and> j' < H \<and> ?Q j'}"
      unfolding split using fin notin by simp
    show ?thesis
      using "1.IH" [OF True refl] True
      by (subst cells_j.simps) (simp add: Let_def list_ex_iff card del: One_nat_def)
  next
    case False
    then have "{j'. j \<le> j' \<and> j' < H \<and> ?Q j'} = {}" by auto
    with False show ?thesis by (subst cells_j.simps) simp
  qed
qed

lemma cells_i_count:
  "cells_i polygons minX minY cs W H i c =
     c + card {(i', j'). i \<le> i' \<and> i' < W \<and> j' < H
                \<and> (\<exists>polygon \<in> set polygons. isPointInPolygon (cellCentre minX minY cs i' j') polygon)}"
proof (induction polygons minX minY cs W H i c rule: cells_i.induct)
  case (1 polygons minX minY cs W H i c)
  let ?Q = "\<lambda>i' j'. \<exists>polygon \<in> set polygons. isPointInPolygon (cellCentre minX minY cs i' j') polygon"
  let ?S = "\<lambda>i. {(i', j'). i \<le> i' \<and> i' < W \<and> j' < H \<and> ?Q i' j'}"
  show ?case
  proof (cases "i < W")
    case True
    let ?col = "{j'. 0 \<le> j' \<and> j' < H \<and> ?Q i j'}"
    have split: "?S i = ({i} \<times> ?col) \<union> ?S (i + 1)"
      using True by (auto simp: Suc_le_eq le_less)
    have sub: "?S (i + 1) \<subseteq> {..<W} \<times> {..<H}" by auto
    have fin: "finite (?S (i + 1))"
      by (rule finite_subset [OF sub]) simp
    have fincol: "finite ({i} \<times> ?col)" by simp
    have disj: "({i} \<times> ?col) \<inter> ?S (i + 1) = {}" by auto
    have "card (?S i) = card ({i} \<times> ?col) + card (?S (i + 1))"
      unfolding split by (rule card_Un_disjoint [OF fincol fin disj])
    then have card: "card (?S i) = card ?col + card (?S (i + 1))"
      by (simp add: card_cartesian_product_singleton)
    show ?thesis
      using "1.IH" [OF True] True
      by (subst cells_i.simps) (simp add: cells_j_count card)
  next
    case False
    then have e: "?S i = {}" by auto
    from False have "cells_i polygons minX minY cs W H i c = c"
      by (subst cells_i.simps) simp
    then show ?thesis unfolding e by simp
  qed
qed

definition tri_a :: "point list" where
  "tri_a = [\<lparr>px = 0, py = 0\<rparr>, \<lparr>px = 4, py = 0\<rparr>, \<lparr>px = 0, py = 4\<rparr>]"

definition tri_b :: "point list" where
  "tri_b = [\<lparr>px = 4, py = 4\<rparr>, \<lparr>px = 4, py = 0\<rparr>, \<lparr>px = 0, py = 4\<rparr>]"

definition fixed_range :: "point list \<Rightarrow> bool" where
  "fixed_range p =
     (length p < 3 \<or> fdiv (fdiv \<bar>area_loop p 0 0\<bar> 2) (fmul 50 50) < 10 ^ 21)"

lemma real_le_pow25:
  assumes "n \<le> (2::nat) ^ 25"
  shows "real n \<le> 2 ^ 25"
proof -
  from assms have "real n \<le> real (2 ^ 25)" by (rule of_nat_mono)
  then show ?thesis by simp
qed

lemma centre_coord:
  assumes "n \<le> (2::nat) ^ 25"
  shows "fmul (fadd (real n) (5 / 10)) 2 = (real n + 1 / 2) * 2"
proof -
  note r = real_le_pow25 [OF assms]
  have z: "(real n + 5 / 10) * 2 = real (2 * n + 1)" by simp
  have i: "real (2 * n + 1) \<in> \<int>" by (rule Ints_of_nat)
  have b: "\<bar>real (2 * n + 1)\<bar> \<le> 2 ^ 53" using r by simp
  have h: "fl (real n + 5 / 10) = real n + 5 / 10"
    by (rule fl_half) (simp_all only: z i b)
  have m: "fl (real (2 * n + 1)) = real (2 * n + 1)"
    by (rule fl_int [OF i b])
  have "fmul (fadd (real n) (5 / 10)) 2 = fl ((real n + 5 / 10) * 2)"
    unfolding fmul_def fadd_def h ..
  also have "\<dots> = real (2 * n + 1)" unfolding z by (rule m)
  also have "\<dots> = (real n + 1 / 2) * 2" by simp
  finally show ?thesis .
qed

lemma cellCentre_spec:
  assumes "i \<le> 2 ^ 25" and "j \<le> 2 ^ 25"
  shows "cellCentre minX minY 2 i j
           = \<lparr> px = fl (minX + (real i + 1 / 2) * 2), py = fl (minY + (real j + 1 / 2) * 2) \<rparr>"
  by (simp only: cellCentre_def centre_coord [OF assms(1)] centre_coord [OF assms(2)])
     (simp add: fadd_def)

lemma covered_cells_code:
  assumes "feasible_grid polygons"
  shows "{(i', j'). 0 \<le> i' \<and> i' < grid_width polygons \<and> j' < grid_height polygons
            \<and> (\<exists>polygon \<in> set polygons.
                  isPointInPolygon
                    (cellCentre (box_minX polygons) (box_minY polygons) 2 i' j') polygon)}
         = covered_cells polygons"
proof (rule set_eqI)
  fix c :: "nat \<times> nat"
  obtain i j where c: "c = (i, j)" by (cases c)
  show "(c \<in> {(i', j'). 0 \<le> i' \<and> i' < grid_width polygons \<and> j' < grid_height polygons
            \<and> (\<exists>polygon \<in> set polygons.
                  isPointInPolygon
                    (cellCentre (box_minX polygons) (box_minY polygons) 2 i' j') polygon)})
        = (c \<in> covered_cells polygons)"
  proof (cases "i < grid_width polygons \<and> j < grid_height polygons")
    case True
    with assms have "i \<le> 2 ^ 25" "j \<le> 2 ^ 25" by (simp_all add: feasible_grid_def)
    then have "cellCentre (box_minX polygons) (box_minY polygons) 2 i j
           = \<lparr> px = fl (box_minX polygons + (real i + 1 / 2) * 2),
               py = fl (box_minY polygons + (real j + 1 / 2) * 2) \<rparr>"
      by (rule cellCentre_spec)
    then show ?thesis by (simp add: c covered_cells_def)
  next
    case False
    then show ?thesis by (auto simp: c covered_cells_def)
  qed
qed

lemma covered_cells_card:
  "card (covered_cells polygons) \<le> grid_width polygons * grid_height polygons"
proof -
  have sub: "covered_cells polygons \<subseteq> {..<grid_width polygons} \<times> {..<grid_height polygons}"
    by (auto simp: covered_cells_def)
  have "card (covered_cells polygons)
          \<le> card ({..<grid_width polygons} \<times> {..<grid_height polygons})"
    by (rule card_mono [OF _ sub]) simp
  then show ?thesis by (simp add: card_cartesian_product)
qed

lemma covered_cells_bound:
  assumes "feasible_grid polygons"
  shows "real (card (covered_cells polygons)) \<le> 2 ^ 50"
proof -
  from assms have "grid_width polygons * grid_height polygons \<le> 2 ^ 25 * 2 ^ 25"
    unfolding feasible_grid_def by (intro mult_le_mono) simp_all
  with covered_cells_card [of polygons]
  have "card (covered_cells polygons) \<le> 2 ^ 50" by simp
  then have "real (card (covered_cells polygons)) \<le> real (2 ^ 50)" by (rule of_nat_mono)
  then show ?thesis by simp
qed

lemma area_of_count:
  assumes "real c \<le> 2 ^ 50"
  shows "fdiv (fmul (fmul (real c) 2) 2) (fmul 50 50) = fl (real c * (2 * 2) / (50 * 50))"
proof -
  have "fl (real c * 2) = real c * 2"
    using assms by (intro fl_int) simp_all
  then have a: "fmul (real c) 2 = real c * 2" by (simp add: fmul_def)
  have "fl (real c * 2 * 2) = real c * 2 * 2"
    using assms by (intro fl_int) simp_all
  then have b: "fmul (real c * 2) 2 = real c * 2 * 2" by (simp add: fmul_def)
  have d: "fmul 50 50 = 2500" by (simp add: fmul_def)
  show ?thesis unfolding a b d fdiv_def by simp
qed

lemma calculateUnionArea_grid:
  assumes "2 \<le> length polygons" and "feasible_grid polygons"
  shows "calculateUnionArea polygons
           = Some (fl (real (card (covered_cells polygons)) * (2 * 2) / (50 * 50)))"
proof (cases "concat polygons = []")
  case True
  then have "covered_cells polygons = {}"
    by (simp add: covered_cells_def grid_width_def)
  moreover have "calculateUnionArea polygons = Some 0"
    using assms(1) by (simp add: calculateUnionArea_def boundingBox_empty [OF True])
  ultimately show ?thesis by simp
next
  case False
  let ?W = "grid_width polygons"
  let ?H = "grid_height polygons"
  have w: "nat \<lceil>fdiv (fsub (box_maxX polygons) (box_minX polygons)) 2\<rceil> = ?W"
    unfolding grid_width_def fdiv_def fsub_def if_not_P [OF False] ..
  have h: "nat \<lceil>fdiv (fsub (box_maxY polygons) (box_minY polygons)) 2\<rceil> = ?H"
    unfolding grid_height_def fdiv_def fsub_def if_not_P [OF False] ..
  have n: "cells_i polygons (box_minX polygons) (box_minY polygons) 2 ?W ?H 0 0
             = card (covered_cells polygons)"
    unfolding cells_i_count covered_cells_code [OF assms(2)] by simp
  have l: "length polygons \<noteq> 0" "length polygons \<noteq> 1" using assms(1) by linarith+
  have "calculateUnionArea polygons
          = Some (fdiv (fmul (fmul (real (card (covered_cells polygons))) 2) 2) (fmul 50 50))"
    unfolding calculateUnionArea_def if_not_P [OF l(1)] if_not_P [OF l(2)]
      boundingBox_Min_Max [OF False]
    by (simp add: Let_def w h n)
  then show ?thesis
    unfolding area_of_count [OF covered_cells_bound [OF assms(2)]] .
qed

lemma calculateUnionArea_range:
  assumes "feasible_grid polygons"
  shows "0 \<le> fl (real (card (covered_cells polygons)) * (2 * 2) / (50 * 50))
       \<and> fl (real (card (covered_cells polygons)) * (2 * 2) / (50 * 50)) < 10 ^ 21"
proof -
  note b = covered_cells_bound [OF assms]
  have "0 \<le> real (card (covered_cells polygons)) * (2 * 2) / (50 * 50)" by simp
  moreover have "real (card (covered_cells polygons)) * (2 * 2) / (50 * 50) < 2 ^ 53"
    using b by simp
  ultimately have "0 \<le> fl (real (card (covered_cells polygons)) * (2 * 2) / (50 * 50))
       \<and> fl (real (card (covered_cells polygons)) * (2 * 2) / (50 * 50)) \<le> 2 ^ 53"
    by (rule fl_range)
  then show ?thesis by simp
qed


lemma real_le_pow24:
  assumes "n \<le> (2::nat) ^ 24"
  shows "real n \<le> 2 ^ 24"
proof -
  from assms have "real n \<le> real (2 ^ 24)" by (rule of_nat_mono)
  then show ?thesis by simp
qed

lemma box_int:
  assumes "int_coords B (concat polygons)" and "concat polygons \<noteq> []"
  shows "box_minX polygons \<in> \<int> \<and> \<bar>box_minX polygons\<bar> \<le> real B"
    and "box_maxX polygons \<in> \<int> \<and> \<bar>box_maxX polygons\<bar> \<le> real B"
    and "box_minY polygons \<in> \<int> \<and> \<bar>box_minY polygons\<bar> \<le> real B"
    and "box_maxY polygons \<in> \<int> \<and> \<bar>box_maxY polygons\<bar> \<le> real B"
    and "box_minX polygons \<le> box_maxX polygons"
    and "box_minY polygons \<le> box_maxY polygons"
proof -
  let ?ps = "concat polygons"
  have ne: "set ?ps \<noteq> {}" using assms(2) by (simp only: set_empty not_False_eq_True)
  have fx: "finite (px ` set ?ps)" and fy: "finite (py ` set ?ps)" by simp_all
  have nx: "px ` set ?ps \<noteq> {}" and ny: "py ` set ?ps \<noteq> {}"
    using ne by (simp_all only: image_is_empty not_False_eq_True)
  have c: "v \<in> \<int> \<and> \<bar>v\<bar> \<le> real B" if "v \<in> px ` set ?ps \<or> v \<in> py ` set ?ps" for v
    using that assms(1) unfolding int_coords_def by blast
  have "box_minX polygons \<in> px ` set ?ps" unfolding box_minX_def by (rule Min_in [OF fx nx])
  then show "box_minX polygons \<in> \<int> \<and> \<bar>box_minX polygons\<bar> \<le> real B" using c by blast
  have "box_maxX polygons \<in> px ` set ?ps" unfolding box_maxX_def by (rule Max_in [OF fx nx])
  then show "box_maxX polygons \<in> \<int> \<and> \<bar>box_maxX polygons\<bar> \<le> real B" using c by blast
  have "box_minY polygons \<in> py ` set ?ps" unfolding box_minY_def by (rule Min_in [OF fy ny])
  then show "box_minY polygons \<in> \<int> \<and> \<bar>box_minY polygons\<bar> \<le> real B" using c by blast
  have "box_maxY polygons \<in> py ` set ?ps" unfolding box_maxY_def by (rule Max_in [OF fy ny])
  then show "box_maxY polygons \<in> \<int> \<and> \<bar>box_maxY polygons\<bar> \<le> real B" using c by blast
  have "Min (px ` set ?ps) \<in> px ` set ?ps" by (rule Min_in [OF fx nx])
  then show "box_minX polygons \<le> box_maxX polygons"
    unfolding box_minX_def box_maxX_def by (rule Max_ge [OF fx])
  have "Min (py ` set ?ps) \<in> py ` set ?ps" by (rule Min_in [OF fy ny])
  then show "box_minY polygons \<le> box_maxY polygons"
    unfolding box_minY_def box_maxY_def by (rule Max_ge [OF fy])
qed

text \<open>One axis of the grid for integer bounds of magnitude at most 2^24: the extent and
  its half are exact, the number of cells is at most 2^24, and every centre is exact.\<close>

lemma int_axis:
  fixes lo hi :: real
  assumes "lo \<in> \<int>" and "\<bar>lo\<bar> \<le> 2 ^ 24" and "hi \<in> \<int>" and "\<bar>hi\<bar> \<le> 2 ^ 24" and "lo \<le> hi"
  shows "fl (fl (hi - lo) / 2) = (hi - lo) / 2"
    and "nat \<lceil>(hi - lo) / 2\<rceil> \<le> 2 ^ 24"
    and "i < nat \<lceil>(hi - lo) / 2\<rceil> \<Longrightarrow> fl (lo + (real i + 1 / 2) * 2) = lo + (real i + 1 / 2) * 2"
proof -
  have d: "hi - lo \<in> \<int>" using assms(1,3) by (rule Ints_diff [rotated])
  have b: "\<bar>hi - lo\<bar> \<le> 2 ^ 25" using assms(2,4) by simp
  have e: "fl (hi - lo) = hi - lo"
    using d b by (intro fl_int) simp_all
  have t: "(hi - lo) / 2 * 2 = hi - lo" by simp
  have b53: "\<bar>hi - lo\<bar> \<le> 2 ^ 53" using b by simp
  have h: "fl ((hi - lo) / 2) = (hi - lo) / 2"
    by (rule fl_half) (simp_all only: t d b53)
  show "fl (fl (hi - lo) / 2) = (hi - lo) / 2" unfolding e by (rule h)
  have "(hi - lo) / 2 \<le> real_of_int (2 ^ 24)" using b by simp
  then have "\<lceil>(hi - lo) / 2\<rceil> \<le> 2 ^ 24" by (simp only: ceiling_le_iff)
  then show n: "nat \<lceil>(hi - lo) / 2\<rceil> \<le> 2 ^ 24" by simp
  assume "i < nat \<lceil>(hi - lo) / 2\<rceil>"
  with n have "i \<le> 2 ^ 24" by linarith
  then have r: "real i \<le> 2 ^ 24" by (rule real_le_pow24)
  have z: "lo + (real i + 1 / 2) * 2 = lo + real (2 * i + 1)" by simp
  have zi: "lo + real (2 * i + 1) \<in> \<int>" using assms(1) by (intro Ints_add Ints_of_nat)
  have zb: "\<bar>lo + real (2 * i + 1)\<bar> \<le> 2 ^ 53" using assms(2) r by simp
  show "fl (lo + (real i + 1 / 2) * 2) = lo + (real i + 1 / 2) * 2"
    unfolding z by (rule fl_int [OF zi zb])
qed

lemma int_grid:
  assumes "int_coords B (concat polygons)" and "B \<le> 2 ^ 24"
  shows "feasible_grid polygons" and "covered_cells polygons = exact_cells polygons"
proof -
  have "feasible_grid polygons \<and> covered_cells polygons = exact_cells polygons"
  proof (cases "concat polygons = []")
    case True
    then have e: "\<forall>polygon \<in> set polygons. polygon = []" by simp
    have f: "feasible_grid polygons"
      unfolding feasible_grid_def grid_width_def grid_height_def if_P [OF True] by simp
    have "covered_cells polygons = {}"
      unfolding covered_cells_def grid_width_def if_P [OF True] by simp
    moreover have "exact_cells polygons = {}"
      using e by (auto simp: exact_cells_def isPointInPolygon_def)
    ultimately show ?thesis using f by simp
  next
    case False
    note bx = box_int [OF assms(1) False]
    note rb = real_le_pow24 [OF assms(2)]
    have x1: "box_minX polygons \<in> \<int>" and x2: "\<bar>box_minX polygons\<bar> \<le> 2 ^ 24"
      and x3: "box_maxX polygons \<in> \<int>" and x4: "\<bar>box_maxX polygons\<bar> \<le> 2 ^ 24"
      using bx(1,2) rb by auto
    have y1: "box_minY polygons \<in> \<int>" and y2: "\<bar>box_minY polygons\<bar> \<le> 2 ^ 24"
      and y3: "box_maxY polygons \<in> \<int>" and y4: "\<bar>box_maxY polygons\<bar> \<le> 2 ^ 24"
      using bx(3,4) rb by auto
    note ax = int_axis [OF x1 x2 x3 x4 bx(5)]
    note ay = int_axis [OF y1 y2 y3 y4 bx(6)]
    have w: "grid_width polygons = nat \<lceil>(box_maxX polygons - box_minX polygons) / 2\<rceil>"
      unfolding grid_width_def if_not_P [OF False] ax(1) ..
    have h: "grid_height polygons = nat \<lceil>(box_maxY polygons - box_minY polygons) / 2\<rceil>"
      unfolding grid_height_def if_not_P [OF False] ay(1) ..
    have f: "feasible_grid polygons"
      unfolding feasible_grid_def w h using ax(2) ay(2) by simp
    have "covered_cells polygons = exact_cells polygons"
    proof (rule set_eqI)
      fix c :: "nat \<times> nat"
      obtain i j where c: "c = (i, j)" by (cases c)
      show "(c \<in> covered_cells polygons) = (c \<in> exact_cells polygons)"
      proof (cases "i < nat \<lceil>(box_maxX polygons - box_minX polygons) / 2\<rceil>
                    \<and> j < nat \<lceil>(box_maxY polygons - box_minY polygons) / 2\<rceil>")
        case True
        then have "fl (box_minX polygons + (real i + 1 / 2) * 2)
                     = box_minX polygons + (real i + 1 / 2) * 2"
          and "fl (box_minY polygons + (real j + 1 / 2) * 2)
                     = box_minY polygons + (real j + 1 / 2) * 2"
          using ax(3) [of i] ay(3) [of j] by simp_all
        then show ?thesis unfolding c covered_cells_def exact_cells_def w h by simp
      next
        case False
        then show ?thesis unfolding c covered_cells_def exact_cells_def w h by auto
      qed
    qed
    with f show ?thesis by simp
  qed
  then show "feasible_grid polygons" and "covered_cells polygons = exact_cells polygons"
    by simp_all
qed

lemma area_value_shoelace:
  assumes "int_coords B ps" and "2 * real (length ps) * (real B * real B) \<le> 2 ^ 53"
  shows "fdiv (fdiv \<bar>area_loop ps 0 0\<bar> 2) (fmul 50 50) = fl (shoelace ps / 2500)"
proof -
  let ?S = "area_loop ps 0 0"
  note s = area_loop_shoelace [OF assms]
  have "(\<bar>?S\<bar> / 2) * 2 \<in> \<int>" using s(2) by simp
  moreover have "\<bar>(\<bar>?S\<bar> / 2) * 2\<bar> \<le> 2 ^ 53" using s(3) by simp
  ultimately have h: "fdiv \<bar>?S\<bar> 2 = \<bar>?S\<bar> / 2"
    unfolding fdiv_def by (rule fl_half)
  have c: "fmul 50 50 = 2500" by (simp add: fmul_def)
  show ?thesis unfolding h c s(1) unfolding fdiv_def ..
qed

lemma int_fixed_range:
  assumes "int_coords B p" and "2 * real (length p) * (real B * real B) \<le> 2 ^ 53"
  shows "fixed_range p"
  unfolding fixed_range_def area_value_shoelace [OF assms]
  using shoelace_range [OF assms] by simp

lemma calculateUnionArea_single:
  "calculateUnionArea [p] = parseFloat (calculatePolygonArea p)"
  by (simp add: calculateUnionArea_def)

lemma calculateUnionArea_single_value:
  assumes "int_coords B p" and "2 * real (length p) * (real B * real B) \<le> 2 ^ 53"
  shows "calculateUnionArea [p]
           = Some (if length p < 3 then 0 else fl (round1 (fl (shoelace p / 2500))))"
  by (simp add: calculateUnionArea_def calculatePolygonArea_shoelace [OF assms]
        parseFloat_toFixed1)

lemma tri_union_value: "calculateUnionArea [tri_a, tri_b] = Some (fl (16 / 2500))"
  by (simp add: calculateUnionArea_def boundingBox_def tri_a_def tri_b_def cells_i_step
        cells_i_done cells_j_step cells_j_done cellCentre_def isPointInPolygon_def
        pip_loop_step pip_loop_done fadd_def fsub_def fmul_def fdiv_def fl_int fl_half Let_def)


definition one_obstacle :: canvas where
  "one_obstacle = initCanvas\<lparr>obstacles := [\<lparr>oid = ''obstacle_1'', points = tri_a, otype = Static\<rparr>]\<rparr>"

definition two_obstacles :: canvas where
  "two_obstacles =
     initCanvas\<lparr>obstacles := [\<lparr>oid = ''obstacle_1'', points = tri_a, otype = Static\<rparr>],
                dynamicObstacles := [\<lparr>oid = ''dynamic_2'', points = tri_b, otype = Dynamic\<rparr>]\<rparr>"

lemma int_coords_tris: "int_coords 4 (concat [tri_a, tri_b])"
  by (simp add: int_coords_def tri_a_def tri_b_def)

lemma fl_16_2500: "fl (16 / 2500) = 7378697629483821 / 1152921504606846976"
  using fl_eval_up [of "16 / 2500" 60] by (simp add: rhe_def Let_def)

lemma two_obstacles_area: "calculateObstaclesArea two_obstacles = Str ''0.0''"
proof -
  have "calculateObstaclesArea two_obstacles = Str (toFixed1 (fl (16 / 2500)))"
    by (simp add: calculateObstaclesArea_def two_obstacles_def initCanvas_def tri_union_value)
  then show ?thesis
    unfolding fl_16_2500 by (simp add: toFixed1_def show_nat.simps digit_char_def Let_def)
qed

text \<open>
  C6. \<open>calculateUnionArea\<close> returns 0 for no polygon. For exactly one polygon it returns
  the number that the result of \<open>calculatePolygonArea\<close> for it denotes (stated for areas
  below 1e21, where \<open>toFixed\<close> prints fixed notation); for integer coordinates as in C4
  this is 0 for fewer than three points and otherwise the shoelace value divided by 2500,
  rounded to a double, to one decimal and to a double again. For two or more polygons
  whose grid has at most 2^25 columns and rows it returns the number of grid cells (cell
  size 2, over the joint bounding box, the centre of cell (i, j) being the double nearest
  to (minX + (i + 1/2) 2, minY + (j + 1/2) 2)) whose centre is inside at least one polygon
  by \<open>isPointInPolygon\<close>, times the cell area 2 * 2, divided by 2500 (pixels squared to
  metres squared) and rounded to a double. For integer coordinates of magnitude at most
  2^24 the grid is of that size and its extents and centres are exact.
  \<open>calculateObstaclesArea\<close>, which feeds the statistics, returns the string 0.0 without
  obstacles, exactly the result of \<open>calculatePolygonArea\<close> for a single obstacle (area
  below 1e21), and the grid value, which is below 1e21, formatted with one decimal
  otherwise.
\<close>

theorem union_area_cases:
  "calculateUnionArea [] = Some 0
   \<and> (fixed_range p \<longrightarrow> calculateUnionArea [p] = parseFloat (calculatePolygonArea p))
   \<and> (int_coords B p \<and> 2 * real (length p) * (real B * real B) \<le> 2 ^ 53 \<longrightarrow>
        fixed_range p
        \<and> calculateUnionArea [p]
            = Some (if length p < 3 then 0 else fl (round1 (fl (shoelace p / 2500)))))
   \<and> (2 \<le> length polygons \<and> feasible_grid polygons \<longrightarrow>
        calculateUnionArea polygons
          = Some (fl (real (card (covered_cells polygons)) * (2 * 2) / (50 * 50)))
        \<and> fl (real (card (covered_cells polygons)) * (2 * 2) / (50 * 50)) < 10 ^ 21)
   \<and> (int_coords C (concat polygons) \<and> C \<le> 2 ^ 24 \<longrightarrow>
        feasible_grid polygons \<and> covered_cells polygons = exact_cells polygons)
   \<and> (obstacles s = [] \<and> dynamicObstacles s = [] \<longrightarrow> calculateObstaclesArea s = Str ''0.0'')
   \<and> (length (obstacles s) + length (dynamicObstacles s) = 1
        \<and> fixed_range (hd (map points (obstacles s) @ map points (dynamicObstacles s))) \<longrightarrow>
        calculateObstaclesArea s
          = calculatePolygonArea (hd (map points (obstacles s) @ map points (dynamicObstacles s))))
   \<and> (2 \<le> length (obstacles s) + length (dynamicObstacles s)
        \<and> feasible_grid (map points (obstacles s) @ map points (dynamicObstacles s)) \<longrightarrow>
        calculateObstaclesArea s
          = Str (toFixed1 (fl (real (card (covered_cells
                   (map points (obstacles s) @ map points (dynamicObstacles s)))) * (2 * 2)
                 / (50 * 50)))))"
proof -
  let ?all = "map points (obstacles s) @ map points (dynamicObstacles s)"
  have a: "calculateUnionArea [] = Some 0"
    by (simp add: calculateUnionArea_def)
  have b1: "fixed_range p \<longrightarrow> calculateUnionArea [p] = parseFloat (calculatePolygonArea p)"
    using calculateUnionArea_single by blast
  have b2: "int_coords B p \<and> 2 * real (length p) * (real B * real B) \<le> 2 ^ 53 \<longrightarrow>
        fixed_range p
        \<and> calculateUnionArea [p]
            = Some (if length p < 3 then 0 else fl (round1 (fl (shoelace p / 2500))))"
    using int_fixed_range [of B p] calculateUnionArea_single_value [of B p] by blast
  have b3: "2 \<le> length polygons \<and> feasible_grid polygons \<longrightarrow>
        calculateUnionArea polygons
          = Some (fl (real (card (covered_cells polygons)) * (2 * 2) / (50 * 50)))
        \<and> fl (real (card (covered_cells polygons)) * (2 * 2) / (50 * 50)) < 10 ^ 21"
    using calculateUnionArea_grid [of polygons] calculateUnionArea_range [of polygons] by blast
  have b4: "int_coords C (concat polygons) \<and> C \<le> 2 ^ 24 \<longrightarrow>
        feasible_grid polygons \<and> covered_cells polygons = exact_cells polygons"
    using int_grid [of C polygons] by blast
  have c: "obstacles s = [] \<and> dynamicObstacles s = [] \<longrightarrow> calculateObstaclesArea s = Str ''0.0''"
    by (simp add: calculateObstaclesArea_def)
  have d: "length (obstacles s) + length (dynamicObstacles s) = 1 \<and> fixed_range (hd ?all) \<longrightarrow>
        calculateObstaclesArea s = calculatePolygonArea (hd ?all)"
  proof
    assume h: "length (obstacles s) + length (dynamicObstacles s) = 1 \<and> fixed_range (hd ?all)"
    then have "length ?all = 1" by simp
    then obtain q where q: "?all = [q]"
      by (cases ?all) simp_all
    show "calculateObstaclesArea s = calculatePolygonArea (hd ?all)"
      unfolding calculateObstaclesArea_def Let_def q by simp
  qed
  have e: "2 \<le> length (obstacles s) + length (dynamicObstacles s) \<and> feasible_grid ?all \<longrightarrow>
        calculateObstaclesArea s
          = Str (toFixed1 (fl (real (card (covered_cells ?all)) * (2 * 2) / (50 * 50))))"
  proof
    assume h: "2 \<le> length (obstacles s) + length (dynamicObstacles s) \<and> feasible_grid ?all"
    then have l: "2 \<le> length ?all" by simp
    then have n: "length ?all \<noteq> 0" "length ?all \<noteq> 1" by linarith+
    from h have f: "feasible_grid ?all" by blast
    show "calculateObstaclesArea s
          = Str (toFixed1 (fl (real (card (covered_cells ?all)) * (2 * 2) / (50 * 50))))"
      unfolding calculateObstaclesArea_def Let_def calculateUnionArea_grid [OF l f]
      using n by (simp only: if_False option.case)
  qed
  from a b1 b2 b3 b4 c d e show ?thesis by blast
qed

theorem union_area_cases_witness:
  "fixed_range square100
   \<and> calculateUnionArea [square100] = parseFloat (calculatePolygonArea square100)
   \<and> int_coords 100 square100
   \<and> 2 * real (length square100) * (real 100 * real 100) \<le> 2 ^ 53
   \<and> calculateUnionArea [square100]
       = Some (if length square100 < 3 then 0 else fl (round1 (fl (shoelace square100 / 2500))))
   \<and> calculateUnionArea [square100] = Some 4
   \<and> 2 \<le> length [tri_a, tri_b]
   \<and> feasible_grid [tri_a, tri_b]
   \<and> calculateUnionArea [tri_a, tri_b]
       = Some (fl (real (card (covered_cells [tri_a, tri_b])) * (2 * 2) / (50 * 50)))
   \<and> int_coords 4 (concat [tri_a, tri_b])
   \<and> covered_cells [tri_a, tri_b] = exact_cells [tri_a, tri_b]
   \<and> calculateUnionArea [tri_a, tri_b] = Some (fl (16 / 2500))
   \<and> obstacles initCanvas = [] \<and> dynamicObstacles initCanvas = []
   \<and> calculateObstaclesArea initCanvas = Str ''0.0''
   \<and> length (obstacles one_obstacle) + length (dynamicObstacles one_obstacle) = 1
   \<and> fixed_range tri_a
   \<and> calculateObstaclesArea one_obstacle = calculatePolygonArea tri_a
   \<and> 2 \<le> length (obstacles two_obstacles) + length (dynamicObstacles two_obstacles)
   \<and> feasible_grid (map points (obstacles two_obstacles)
                      @ map points (dynamicObstacles two_obstacles))
   \<and> calculateObstaclesArea two_obstacles
       = Str (toFixed1 (fl (real (card (covered_cells [tri_a, tri_b])) * (2 * 2) / (50 * 50))))
   \<and> calculateObstaclesArea two_obstacles = Str ''0.0''"
proof -
  have h1: "int_coords 100 square100" by (rule int_coords_square100)
  have h2: "2 * real (length square100) * (real 100 * real 100) \<le> 2 ^ 53"
    by (rule bound_square100)
  have h3: "2 \<le> length [tri_a, tri_b]" by simp
  have h4: "int_coords 4 (concat [tri_a, tri_b])" by (rule int_coords_tris)
  have h5: "(4::nat) \<le> 2 ^ 24" by simp
  have h6: "obstacles initCanvas = [] \<and> dynamicObstacles initCanvas = []"
    by (simp add: initCanvas_def)
  have h7: "length (obstacles one_obstacle) + length (dynamicObstacles one_obstacle) = 1"
    by (simp add: one_obstacle_def initCanvas_def)
  have h8: "2 \<le> length (obstacles two_obstacles) + length (dynamicObstacles two_obstacles)"
    by (simp add: two_obstacles_def initCanvas_def)
  have h9: "fixed_range tri_a"
    by (rule int_fixed_range [of 4]) (simp_all add: int_coords_def tri_a_def)
  have e1: "map points (obstacles one_obstacle) @ map points (dynamicObstacles one_obstacle)
              = [tri_a]"
    by (simp add: one_obstacle_def initCanvas_def)
  have e2: "map points (obstacles two_obstacles) @ map points (dynamicObstacles two_obstacles)
              = [tri_a, tri_b]"
    by (simp add: two_obstacles_def initCanvas_def)
  have v1: "calculateUnionArea [square100] = Some 4"
    by (simp add: calculateUnionArea_def square100_area parseFloat_str_def is_digit_def
          digit_val_def Let_def)
  note t0 = union_area_cases [where p = square100 and B = 100 and polygons = "[tri_a, tri_b]"
                and C = 4 and s = initCanvas]
  note t1 = union_area_cases [where p = square100 and B = 100 and polygons = "[tri_a, tri_b]"
                and C = 4 and s = one_obstacle, unfolded e1 list.sel]
  note t2 = union_area_cases [where p = square100 and B = 100 and polygons = "[tri_a, tri_b]"
                and C = 4 and s = two_obstacles, unfolded e2]
  from t0 h1 h2 h3 h4 h5 h6 have p0:
    "fixed_range square100
     \<and> calculateUnionArea [square100] = parseFloat (calculatePolygonArea square100)
     \<and> calculateUnionArea [square100]
         = Some (if length square100 < 3 then 0 else fl (round1 (fl (shoelace square100 / 2500))))
     \<and> feasible_grid [tri_a, tri_b]
     \<and> calculateUnionArea [tri_a, tri_b]
         = Some (fl (real (card (covered_cells [tri_a, tri_b])) * (2 * 2) / (50 * 50)))
     \<and> covered_cells [tri_a, tri_b] = exact_cells [tri_a, tri_b]
     \<and> calculateObstaclesArea initCanvas = Str ''0.0''"
    by blast
  from t1 h7 h9 have p1: "calculateObstaclesArea one_obstacle = calculatePolygonArea tri_a"
    by blast
  from p0 have f: "feasible_grid [tri_a, tri_b]" by blast
  from t2 h8 f have p2:
    "calculateObstaclesArea two_obstacles
       = Str (toFixed1 (fl (real (card (covered_cells [tri_a, tri_b])) * (2 * 2) / (50 * 50))))"
    by blast
  from p0 p1 p2 h1 h2 h3 h4 h6 h7 h8 h9 v1 tri_union_value two_obstacles_area f
  show ?thesis unfolding e2 by blast
qed

section \<open>Editor commands (ControlsManager and App)\<close>

text \<open>The button and key handlers of the controls manager that drive the drawing modes.
  Each toggles: in its own mode it finishes the drawing, otherwise it enters the mode.\<close>

definition startBoundary :: "'a canvas_scheme \<Rightarrow> 'a canvas_scheme" where
  "startBoundary s = (if mode s = Boundary then finishBoundary s else setMode Boundary s)"

definition addObstacle :: "nat \<Rightarrow> 'a canvas_scheme \<Rightarrow> 'a canvas_scheme" where
  "addObstacle now s = (if mode s = Obstacle then finishObstacle now s else setMode Obstacle s)"

definition addDynamicObstacle :: "nat \<Rightarrow> 'a canvas_scheme \<Rightarrow> 'a canvas_scheme" where
  "addDynamicObstacle now s =
     (if mode s = ObstacleDynamic then finishDynamicObstacle now s else setMode ObstacleDynamic s)"

text \<open>The \<open>escape\<close> case of \<open>handleKeyboard\<close>.\<close>

definition handleEscape :: "nat \<Rightarrow> 'a canvas_scheme \<Rightarrow> 'a canvas_scheme" where
  "handleEscape now s =
     (if mode s = Boundary
      then (if length (boundary s) \<ge> 3 then finishBoundary s else setMode Ready s)
      else if mode s = Obstacle
      then (if length (currentObstacle s) \<ge> 3 then finishObstacle now s else setMode Ready s)
      else if mode s = ObstacleDynamic
      then (if length (currentObstacle s) \<ge> 3 then finishDynamicObstacle now s
            else setMode Ready s)
      else setMode Ready s)"

text \<open>
  The snapshot read by \<open>importData\<close>; a missing field is \<open>None\<close> and is replaced by the
  empty array (\<open>data.boundary || []\<close>).
\<close>

record snapshot =
  snap_boundary :: "point list option"
  snap_obstacles :: "obstacle list option"
  snap_dynamicObstacles :: "obstacle list option"
  snap_plannedPath :: "point list option"

definition or_empty :: "'b list option \<Rightarrow> 'b list" where
  "or_empty v = (case v of None \<Rightarrow> [] | Some xs \<Rightarrow> xs)"

definition importData :: "snapshot \<Rightarrow> 'a canvas_scheme \<Rightarrow> 'a canvas_scheme" where
  "importData data s =
     s\<lparr>boundary := or_empty (snap_boundary data),
       obstacles := or_empty (snap_obstacles data),
       dynamicObstacles := or_empty (snap_dynamicObstacles data),
       plannedPath := or_empty (snap_plannedPath data)\<rparr>"

definition generateTestData :: "'a canvas_scheme \<Rightarrow> 'a canvas_scheme" where
  "generateTestData s =
     s\<lparr>boundary := [\<lparr>px = 100, py = 100\<rparr>, \<lparr>px = 500, py = 100\<rparr>, \<lparr>px = 500, py = 400\<rparr>,
                    \<lparr>px = 100, py = 400\<rparr>],
       obstacles := [\<lparr> oid = ''test_obstacle_1'',
                       points = [\<lparr>px = 200, py = 200\<rparr>, \<lparr>px = 300, py = 200\<rparr>,
                                 \<lparr>px = 300, py = 300\<rparr>, \<lparr>px = 200, py = 300\<rparr>],
                       otype = Static \<rparr>],
       dynamicObstacles := [\<lparr> oid = ''test_dynamic_1'',
                              points = [\<lparr>px = 350, py = 150\<rparr>, \<lparr>px = 400, py = 150\<rparr>,
                                        \<lparr>px = 400, py = 200\<rparr>, \<lparr>px = 350, py = 200\<rparr>],
                              otype = Dynamic \<rparr>]\<rparr>"

text \<open>The operations on the editor state as commands; clock readings, pointer
  coordinates and canvas sizes are carried by the command.\<close>

datatype command =
    Click real real
  | RightClick nat
  | StartBoundary
  | AddObstacle nat
  | AddDynamicObstacle nat
  | Escape nat
  | SetMode mode
  | FinishBoundary
  | FinishObstacle nat
  | FinishDynamicObstacle nat
  | RemoveObstacle string
  | Highlight string
  | ClearHighlight
  | ResetAll
  | SetPlannedPath "point list"
  | Wheel real real real
  | ZoomIn real real
  | ZoomOut real real
  | ResetZoom
  | MouseDown nat bool real real
  | MouseMove real real
  | MouseUp
  | MouseLeave
  | GenerateTestData
  | ImportData snapshot

fun run_cmd :: "command \<Rightarrow> 'a canvas_scheme \<Rightarrow> 'a canvas_scheme" where
  "run_cmd (Click cx cy) s = handleClick cx cy s"
| "run_cmd (RightClick now) s = handleRightClick now s"
| "run_cmd StartBoundary s = startBoundary s"
| "run_cmd (AddObstacle now) s = addObstacle now s"
| "run_cmd (AddDynamicObstacle now) s = addDynamicObstacle now s"
| "run_cmd (Escape now) s = handleEscape now s"
| "run_cmd (SetMode m) s = setMode m s"
| "run_cmd FinishBoundary s = finishBoundary s"
| "run_cmd (FinishObstacle now) s = finishObstacle now s"
| "run_cmd (FinishDynamicObstacle now) s = finishDynamicObstacle now s"
| "run_cmd (RemoveObstacle i) s = removeObstacle i s"
| "run_cmd (Highlight i) s = setHighlightedObstacle i s"
| "run_cmd ClearHighlight s = clearHighlightedObstacle s"
| "run_cmd ResetAll s = reset s"
| "run_cmd (SetPlannedPath path) s = setPlannedPath path s"
| "run_cmd (Wheel mx my dy) s = handleWheel mx my dy s"
| "run_cmd (ZoomIn w h) s = zoomIn w h s"
| "run_cmd (ZoomOut w h) s = zoomOut w h s"
| "run_cmd ResetZoom s = resetZoom s"
| "run_cmd (MouseDown b c cx cy) s = handleMouseDown b c cx cy s"
| "run_cmd (MouseMove cx cy) s = handleMouseMove cx cy s"
| "run_cmd MouseUp s = handleMouseUp s"
| "run_cmd MouseLeave s = handleMouseLeave s"
| "run_cmd GenerateTestData s = generateTestData s"
| "run_cmd (ImportData data) s = importData data s"

fun run_cmds :: "command list \<Rightarrow> 'a canvas_scheme \<Rightarrow> 'a canvas_scheme" where
  "run_cmds [] s = s"
| "run_cmds (c # cs) s = run_cmds cs (run_cmd c s)"

section \<open>The ready-mode invariant\<close>

definition boundary_ok :: "point list \<Rightarrow> bool" where
  "boundary_ok b = (length b = 0 \<or> 3 \<le> length b)"

definition editor_inv :: "'a canvas_scheme \<Rightarrow> bool" where
  "editor_inv s = (mode s = Ready \<longrightarrow> currentObstacle s = [] \<and> boundary_ok (boundary s))"

text \<open>A command is an unchecked import when it installs a boundary of one or two points.\<close>

fun import_ok :: "command \<Rightarrow> bool" where
  "import_ok (ImportData data) = boundary_ok (or_empty (snap_boundary data))"
| "import_ok _ = True"

lemma editor_inv_setMode_Ready: "editor_inv (setMode Ready s)"
  by (simp add: editor_inv_def setMode_def boundary_ok_def Let_def)

lemma editor_inv_setMode: "editor_inv (setMode m s)"
  by (cases m) (simp_all add: editor_inv_setMode_Ready, simp_all add: editor_inv_def setMode_def)

lemma editor_inv_finishBoundary: "editor_inv s \<Longrightarrow> editor_inv (finishBoundary s)"
  by (simp add: finishBoundary_def editor_inv_setMode_Ready)

lemma editor_inv_finishObstacle: "editor_inv s \<Longrightarrow> editor_inv (finishObstacle now s)"
  by (simp add: finishObstacle_def editor_inv_setMode_Ready Let_def)

lemma editor_inv_finishDynamicObstacle: "editor_inv (finishDynamicObstacle now s)"
  by (simp add: finishDynamicObstacle_def editor_inv_setMode_Ready Let_def)

lemma editor_inv_run_cmd:
  assumes "editor_inv s" and "import_ok c"
  shows "editor_inv (run_cmd c s)"
proof (cases c)
  case (Click cx cy)
  with assms(1) show ?thesis
    by (cases "mode s")
       (simp_all add: handleClick_def editor_inv_def addBoundaryPoint_def addObstaclePoint_def
          addDynamicObstaclePoint_def Let_def)
next
  case (RightClick now)
  with assms(1) show ?thesis
    by (simp add: handleRightClick_def editor_inv_finishBoundary editor_inv_finishObstacle
          editor_inv_finishDynamicObstacle)
next
  case StartBoundary
  with assms(1) show ?thesis
    by (simp add: startBoundary_def editor_inv_finishBoundary editor_inv_setMode)
next
  case (AddObstacle now)
  with assms(1) show ?thesis
    by (simp add: addObstacle_def editor_inv_finishObstacle editor_inv_setMode)
next
  case (AddDynamicObstacle now)
  with assms(1) show ?thesis
    by (simp add: addDynamicObstacle_def editor_inv_finishDynamicObstacle editor_inv_setMode)
next
  case (Escape now)
  with assms(1) show ?thesis
    by (simp add: handleEscape_def editor_inv_finishBoundary editor_inv_finishObstacle
          editor_inv_finishDynamicObstacle editor_inv_setMode)
next
  case (SetMode m)
  then show ?thesis by (simp add: editor_inv_setMode)
next
  case FinishBoundary
  with assms(1) show ?thesis by (simp add: editor_inv_finishBoundary)
next
  case (FinishObstacle now)
  with assms(1) show ?thesis by (simp add: editor_inv_finishObstacle)
next
  case (FinishDynamicObstacle now)
  then show ?thesis by (simp add: editor_inv_finishDynamicObstacle)
next
  case (RemoveObstacle i)
  with assms(1) show ?thesis by (simp add: removeObstacle_def editor_inv_def)
next
  case (Highlight i)
  with assms(1) show ?thesis by (simp add: setHighlightedObstacle_def editor_inv_def)
next
  case ClearHighlight
  with assms(1) show ?thesis by (simp add: clearHighlightedObstacle_def editor_inv_def)
next
  case ResetAll
  then show ?thesis by (simp add: reset_def editor_inv_setMode_Ready)
next
  case (SetPlannedPath path)
  with assms(1) show ?thesis by (simp add: setPlannedPath_def editor_inv_def)
next
  case (Wheel mx my dy)
  with assms(1) show ?thesis by (simp add: handleWheel_def editor_inv_def Let_def)
next
  case (ZoomIn w h)
  with assms(1) show ?thesis by (simp add: zoomIn_def editor_inv_def Let_def)
next
  case (ZoomOut w h)
  with assms(1) show ?thesis by (simp add: zoomOut_def editor_inv_def Let_def)
next
  case ResetZoom
  with assms(1) show ?thesis by (simp add: resetZoom_def editor_inv_def)
next
  case (MouseDown b k cx cy)
  with assms(1) show ?thesis by (simp add: handleMouseDown_def editor_inv_def)
next
  case (MouseMove cx cy)
  with assms(1) show ?thesis by (auto simp: handleMouseMove_def editor_inv_def Let_def)
next
  case MouseUp
  with assms(1) show ?thesis by (simp add: handleMouseUp_def editor_inv_def)
next
  case MouseLeave
  with assms(1) show ?thesis by (simp add: handleMouseLeave_def editor_inv_def)
next
  case GenerateTestData
  with assms(1) show ?thesis by (simp add: generateTestData_def editor_inv_def boundary_ok_def)
next
  case (ImportData data)
  with assms show ?thesis by (simp add: importData_def editor_inv_def)
qed

lemma editor_inv_run_cmds:
  "editor_inv s \<Longrightarrow> list_all import_ok cs \<Longrightarrow> editor_inv (run_cmds cs s)"
proof (induction cs arbitrary: s)
  case Nil
  then show ?case by simp
next
  case (Cons c cs)
  then show ?case by (simp add: editor_inv_run_cmd)
qed

definition session_ok :: "command list" where
  "session_ok =
     [StartBoundary, Click 0 0, Click 10 0, StartBoundary,
      AddObstacle 5, Click 0 0, Click 10 0, Click 0 10, AddObstacle 7,
      ImportData \<lparr> snap_boundary = None, snap_obstacles = None,
                   snap_dynamicObstacles = None, snap_plannedPath = None \<rparr>]"

definition snapshot_two_points :: snapshot where
  "snapshot_two_points =
     \<lparr> snap_boundary = Some [\<lparr>px = 0, py = 0\<rparr>, \<lparr>px = 10, py = 0\<rparr>], snap_obstacles = None,
       snap_dynamicObstacles = None, snap_plannedPath = None \<rparr>"

text \<open>
  C8 (as amended). The initial state satisfies, and every editor operation other than an
  import of a boundary with one or two points preserves: when the mode is ready, the
  in-progress buffer is empty and the boundary has 0 or at least 3 points. \<open>setMode\<close>
  establishes it from any state. \<open>importData\<close> writes neither the mode nor the buffer and
  installs the boundary of the snapshot as it is.
\<close>

theorem ready_invariant_preserved:
  assumes "editor_inv s" and "list_all import_ok cs"
  shows "editor_inv (run_cmds cs s) \<and> editor_inv initCanvas \<and> editor_inv (setMode m t)
         \<and> mode (importData data s) = mode s
         \<and> currentObstacle (importData data s) = currentObstacle s
         \<and> boundary (importData data s) = or_empty (snap_boundary data)"
proof -
  have "editor_inv initCanvas"
    by (simp add: editor_inv_def initCanvas_def boundary_ok_def)
  then show ?thesis
    using assms editor_inv_run_cmds [of s cs] editor_inv_setMode [of m t]
    by (simp add: importData_def)
qed

theorem ready_invariant_preserved_witness:
  "editor_inv initCanvas \<and> list_all import_ok session_ok
   \<and> editor_inv (run_cmds session_ok initCanvas)
   \<and> mode (run_cmds session_ok initCanvas) = Ready
   \<and> length (obstacles (run_cmds session_ok initCanvas)) = 0"
proof -
  have a: "editor_inv initCanvas"
    by (simp add: editor_inv_def initCanvas_def boundary_ok_def)
  have b: "list_all import_ok session_ok"
    by (simp add: session_ok_def or_empty_def boundary_ok_def)
  have c: "mode (run_cmds session_ok initCanvas) = Ready
           \<and> length (obstacles (run_cmds session_ok initCanvas)) = 0"
    by (simp add: session_ok_def initCanvas_def startBoundary_def addObstacle_def
          handleClick_def setMode_def finishBoundary_def finishObstacle_def
          addBoundaryPoint_def addObstaclePoint_def getMousePosition_def importData_def
          or_empty_def Let_def)
  from ready_invariant_preserved [OF a b] a b c show ?thesis by blast
qed

text \<open>
  The claim as stated fails: importing a snapshot whose boundary has two points into the
  initial state leaves the editor in mode ready with a boundary of two points.
\<close>

theorem import_two_point_boundary:
  "editor_inv initCanvas
   \<and> mode (importData snapshot_two_points initCanvas) = Ready
   \<and> length (boundary (importData snapshot_two_points initCanvas)) = 2
   \<and> \<not> editor_inv (importData snapshot_two_points initCanvas)"
  by (simp add: importData_def snapshot_two_points_def initCanvas_def editor_inv_def
        boundary_ok_def or_empty_def)

section \<open>Finishing a drawing with two or three points\<close>

lemma show_nat_inj: "show_nat a = show_nat b \<Longrightarrow> a = b"
  by (metis digits_val_show_nat)

text \<open>An obstacle whose identifier was made from a clock reading other than \<open>now\<close>.\<close>

definition stamped_apart :: "nat \<Rightarrow> obstacle \<Rightarrow> bool" where
  "stamped_apart now ob =
     (\<exists>t. t \<noteq> now \<and> (oid ob = ''obstacle_'' @ show_nat t \<or> oid ob = ''dynamic_'' @ show_nat t))"

lemma stamped_apart_fresh:
  assumes "stamped_apart now ob"
  shows "oid ob \<noteq> ''obstacle_'' @ show_nat now" and "oid ob \<noteq> ''dynamic_'' @ show_nat now"
  using assms show_nat_inj unfolding stamped_apart_def by auto

lemma finishObstacle_short:
  assumes "length (currentObstacle s) = 2"
  shows "obstacles (finishObstacle now s) = obstacles s
         \<and> dynamicObstacles (finishObstacle now s) = dynamicObstacles s
         \<and> currentObstacle (finishObstacle now s) = []
         \<and> mode (finishObstacle now s) = Ready
         \<and> (boundary_ok (boundary s) \<longrightarrow> boundary (finishObstacle now s) = boundary s)"
  using assms by (auto simp: finishObstacle_def setMode_def boundary_ok_def Let_def)

lemma finishDynamicObstacle_short:
  assumes "length (currentObstacle s) = 2"
  shows "obstacles (finishDynamicObstacle now s) = obstacles s
         \<and> dynamicObstacles (finishDynamicObstacle now s) = dynamicObstacles s
         \<and> currentObstacle (finishDynamicObstacle now s) = []
         \<and> mode (finishDynamicObstacle now s) = Ready
         \<and> (boundary_ok (boundary s) \<longrightarrow> boundary (finishDynamicObstacle now s) = boundary s)"
  using assms by (auto simp: finishDynamicObstacle_def setMode_def boundary_ok_def Let_def)

lemma finishBoundary_short:
  assumes "length (boundary s) = 2"
  shows "boundary (finishBoundary s) = [] \<and> obstacles (finishBoundary s) = obstacles s
         \<and> dynamicObstacles (finishBoundary s) = dynamicObstacles s
         \<and> mode (finishBoundary s) = Ready"
  using assms by (simp add: finishBoundary_def setMode_def Let_def)

lemma finishObstacle_commit:
  assumes "length (currentObstacle s) = 3"
  shows "obstacles (finishObstacle now s)
           = obstacles s @ [\<lparr> oid = ''obstacle_'' @ show_nat now, points = currentObstacle s,
                               otype = Static \<rparr>]
         \<and> dynamicObstacles (finishObstacle now s) = dynamicObstacles s
         \<and> currentObstacle (finishObstacle now s) = []
         \<and> mode (finishObstacle now s) = Ready"
  using assms by (simp add: finishObstacle_def setMode_def Let_def)

lemma finishDynamicObstacle_commit:
  assumes "length (currentObstacle s) = 3"
  shows "dynamicObstacles (finishDynamicObstacle now s)
           = dynamicObstacles s @ [\<lparr> oid = ''dynamic_'' @ show_nat now,
                                      points = currentObstacle s, otype = Dynamic \<rparr>]
         \<and> obstacles (finishDynamicObstacle now s) = obstacles s
         \<and> currentObstacle (finishDynamicObstacle now s) = []
         \<and> mode (finishDynamicObstacle now s) = Ready"
  using assms by (simp add: finishDynamicObstacle_def setMode_def Let_def)

lemma finishBoundary_commit:
  assumes "length (boundary s) = 3"
  shows "boundary (finishBoundary s) = boundary s \<and> mode (finishBoundary s) = Ready"
  using assms by (simp add: finishBoundary_def setMode_def Let_def)

definition three_points :: "point list" where
  "three_points = [\<lparr>px = 0, py = 0\<rparr>, \<lparr>px = 10, py = 0\<rparr>, \<lparr>px = 0, py = 10\<rparr>]"

definition two_points :: "point list" where
  "two_points = [\<lparr>px = 20, py = 20\<rparr>, \<lparr>px = 30, py = 20\<rparr>]"

text \<open>
  C3 (as amended). In an obstacle or dynamic-obstacle drawing, finish with exactly 2
  buffered points leaves both registries unchanged (and a boundary of 0 or at least 3
  points unchanged), empties the buffer and returns to mode ready. Boundary points are
  placed into the boundary itself; finish on a boundary of exactly 2 points empties it and
  changes no registry. Finish with exactly 3 buffered points appends one record to the
  registry of the drawing mode, with the buffered points, the kind of the mode, and the
  identifier \<open>obstacle_\<close> or \<open>dynamic_\<close> followed by the clock reading; this identifier
  differs from the identifier of every obstacle stamped with another clock reading.
  Finish on a boundary of exactly 3 points keeps it.
\<close>

theorem finish_two_or_three_points:
  "(length (currentObstacle s) = 2 \<longrightarrow>
      obstacles (finishObstacle now s) = obstacles s
      \<and> dynamicObstacles (finishObstacle now s) = dynamicObstacles s
      \<and> currentObstacle (finishObstacle now s) = []
      \<and> mode (finishObstacle now s) = Ready
      \<and> (boundary_ok (boundary s) \<longrightarrow> boundary (finishObstacle now s) = boundary s)
      \<and> obstacles (finishDynamicObstacle now s) = obstacles s
      \<and> dynamicObstacles (finishDynamicObstacle now s) = dynamicObstacles s
      \<and> currentObstacle (finishDynamicObstacle now s) = []
      \<and> mode (finishDynamicObstacle now s) = Ready
      \<and> (boundary_ok (boundary s) \<longrightarrow> boundary (finishDynamicObstacle now s) = boundary s))
   \<and> (length (boundary s) = 2 \<longrightarrow>
        boundary (finishBoundary s) = [] \<and> obstacles (finishBoundary s) = obstacles s
        \<and> dynamicObstacles (finishBoundary s) = dynamicObstacles s
        \<and> mode (finishBoundary s) = Ready)
   \<and> (length (currentObstacle s) = 3 \<longrightarrow>
        obstacles (finishObstacle now s)
          = obstacles s @ [\<lparr> oid = ''obstacle_'' @ show_nat now, points = currentObstacle s,
                              otype = Static \<rparr>]
        \<and> dynamicObstacles (finishObstacle now s) = dynamicObstacles s
        \<and> currentObstacle (finishObstacle now s) = []
        \<and> mode (finishObstacle now s) = Ready
        \<and> dynamicObstacles (finishDynamicObstacle now s)
            = dynamicObstacles s @ [\<lparr> oid = ''dynamic_'' @ show_nat now,
                                       points = currentObstacle s, otype = Dynamic \<rparr>]
        \<and> obstacles (finishDynamicObstacle now s) = obstacles s
        \<and> currentObstacle (finishDynamicObstacle now s) = []
        \<and> mode (finishDynamicObstacle now s) = Ready)
   \<and> (length (boundary s) = 3 \<longrightarrow>
        boundary (finishBoundary s) = boundary s \<and> mode (finishBoundary s) = Ready)
   \<and> (\<forall>ob \<in> set (obstacles s @ dynamicObstacles s).
        stamped_apart now ob \<longrightarrow>
          oid ob \<noteq> ''obstacle_'' @ show_nat now \<and> oid ob \<noteq> ''dynamic_'' @ show_nat now)"
  using finishObstacle_short [of s now] finishDynamicObstacle_short [of s now]
    finishBoundary_short [of s] finishObstacle_commit [of s now]
    finishDynamicObstacle_commit [of s now] finishBoundary_commit [of s]
    stamped_apart_fresh
  by blast

definition drawing_two :: canvas where
  "drawing_two = initCanvas\<lparr>mode := Obstacle, currentObstacle := two_points,
     obstacles := [\<lparr> oid = ''obstacle_'' @ show_nat 41, points = three_points, otype = Static \<rparr>]\<rparr>"

definition drawing_three :: canvas where
  "drawing_three = initCanvas\<lparr>mode := Obstacle, currentObstacle := three_points,
     obstacles := [\<lparr> oid = ''obstacle_'' @ show_nat 41, points = three_points, otype = Static \<rparr>]\<rparr>"

theorem finish_two_or_three_points_witness:
  "length (currentObstacle drawing_two) = 2
   \<and> boundary_ok (boundary drawing_two)
   \<and> obstacles (finishObstacle 42 drawing_two) = obstacles drawing_two
   \<and> boundary (finishObstacle 42 drawing_two) = boundary drawing_two
   \<and> length (currentObstacle drawing_three) = 3
   \<and> obstacles (finishObstacle 42 drawing_three)
       = obstacles drawing_three @ [\<lparr> oid = ''obstacle_'' @ show_nat 42,
                                       points = currentObstacle drawing_three, otype = Static \<rparr>]
   \<and> stamped_apart 42 (hd (obstacles drawing_three))
   \<and> oid (hd (obstacles drawing_three)) \<noteq> ''obstacle_'' @ show_nat 42
   \<and> length (boundary (initCanvas\<lparr>boundary := two_points\<rparr>)) = 2
   \<and> boundary (finishBoundary (initCanvas\<lparr>boundary := two_points\<rparr>)) = []
   \<and> length (boundary (initCanvas\<lparr>boundary := three_points\<rparr>)) = 3
   \<and> boundary (finishBoundary (initCanvas\<lparr>boundary := three_points\<rparr>)) = three_points"
proof -
  have h2: "length (currentObstacle drawing_two) = 2 \<and> boundary_ok (boundary drawing_two)"
    by (simp add: drawing_two_def two_points_def initCanvas_def boundary_ok_def)
  have h3: "length (currentObstacle drawing_three) = 3"
    by (simp add: drawing_three_def three_points_def initCanvas_def)
  have "(41::nat) \<noteq> 42 \<and> (''obstacle_'' @ show_nat 41 = ''obstacle_'' @ show_nat 41
          \<or> ''obstacle_'' @ show_nat 41 = ''dynamic_'' @ show_nat 41)" by simp
  then have "\<exists>t. t \<noteq> 42 \<and> (''obstacle_'' @ show_nat 41 = ''obstacle_'' @ show_nat t
          \<or> ''obstacle_'' @ show_nat 41 = ''dynamic_'' @ show_nat t)" by (rule exI)
  then have st: "\<forall>ob \<in> set (obstacles drawing_three @ dynamicObstacles drawing_three).
                  stamped_apart 42 ob"
    unfolding stamped_apart_def by (simp add: drawing_three_def initCanvas_def)
  have b2: "length (boundary (initCanvas\<lparr>boundary := two_points\<rparr>)) = 2"
    by (simp add: two_points_def)
  have b3: "length (boundary (initCanvas\<lparr>boundary := three_points\<rparr>)) = 3"
    by (simp add: three_points_def)
  have b3': "boundary (initCanvas\<lparr>boundary := three_points\<rparr>) = three_points" by simp
  from finish_two_or_three_points [of drawing_two 42] h2
  have r2: "obstacles (finishObstacle 42 drawing_two) = obstacles drawing_two
            \<and> boundary (finishObstacle 42 drawing_two) = boundary drawing_two" by blast
  from finish_two_or_three_points [of drawing_three 42] h3 st
  have r3: "obstacles (finishObstacle 42 drawing_three)
       = obstacles drawing_three @ [\<lparr> oid = ''obstacle_'' @ show_nat 42,
                                       points = currentObstacle drawing_three, otype = Static \<rparr>]
     \<and> (\<forall>ob \<in> set (obstacles drawing_three @ dynamicObstacles drawing_three).
         stamped_apart 42 ob \<and> oid ob \<noteq> ''obstacle_'' @ show_nat 42)" by blast
  have "hd (obstacles drawing_three) \<in> set (obstacles drawing_three @ dynamicObstacles drawing_three)"
    by (simp add: drawing_three_def initCanvas_def)
  with r3 have r3': "stamped_apart 42 (hd (obstacles drawing_three))
     \<and> oid (hd (obstacles drawing_three)) \<noteq> ''obstacle_'' @ show_nat 42" by blast
  from finish_two_or_three_points [of "initCanvas\<lparr>boundary := two_points\<rparr>" 0] b2
  have r4: "boundary (finishBoundary (initCanvas\<lparr>boundary := two_points\<rparr>)) = []" by blast
  from finish_two_or_three_points [of "initCanvas\<lparr>boundary := three_points\<rparr>" 0] b3 b3'
  have r5: "boundary (finishBoundary (initCanvas\<lparr>boundary := three_points\<rparr>)) = three_points"
    by metis
  from h2 h3 r2 r3 r3' b2 r4 b3 r5 show ?thesis by blast
qed

text \<open>
  The claim as stated fails twice. Two obstacles finished at the same clock reading get
  the same identifier. And a boundary drawing started over a committed boundary of three
  points commits the two points placed in it: the finished boundary has five points.
\<close>

theorem same_clock_same_id_and_two_points_committed:
  "map oid (obstacles (finishObstacle 1000
       (addObstaclePoint \<lparr>px = 5, py = 9\<rparr> (addObstaclePoint \<lparr>px = 9, py = 5\<rparr>
          (addObstaclePoint \<lparr>px = 5, py = 5\<rparr>
             (setMode Obstacle (finishObstacle 1000 drawing_three)))))))
     = [''obstacle_41'', ''obstacle_1000'', ''obstacle_1000'']
   \<and> length (boundary (initCanvas\<lparr>boundary := three_points\<rparr>)) = 3
   \<and> boundary (startBoundary (handleClick 30 20 (handleClick 20 20
        (startBoundary (initCanvas\<lparr>boundary := three_points\<rparr>)))))
      = three_points @ two_points
   \<and> mode (startBoundary (handleClick 30 20 (handleClick 20 20
        (startBoundary (initCanvas\<lparr>boundary := three_points\<rparr>))))) = Ready"
  by (simp add: finishObstacle_def addObstaclePoint_def setMode_def drawing_three_def
        initCanvas_def three_points_def two_points_def show_nat.simps digit_char_def
        startBoundary_def handleClick_def getMousePosition_def addBoundaryPoint_def
        finishBoundary_def Let_def)

section \<open>Drawing a boundary over a committed boundary\<close>

fun place_points :: "(real \<times> real) list \<Rightarrow> 'a canvas_scheme \<Rightarrow> 'a canvas_scheme" where
  "place_points [] s = s"
| "place_points ((cx, cy) # cs) s = place_points cs (handleClick cx cy s)"

lemma place_points_boundary:
  assumes "mode s = Boundary"
  shows "boundary (place_points cs s)
           = boundary s @ map (\<lambda>(cx, cy). getMousePosition cx cy s) cs
         \<and> mode (place_points cs s) = Boundary"
  using assms
proof (induction cs arbitrary: s)
  case Nil
  then show ?case by simp
next
  case (Cons c cs)
  obtain cx cy where c: "c = (cx, cy)" by (cases c)
  let ?s1 = "handleClick cx cy s"
  from Cons.prems have m: "mode ?s1 = Boundary"
    by (simp add: handleClick_def addBoundaryPoint_def Let_def)
  have g: "getMousePosition x y ?s1 = getMousePosition x y s" for x y
    using Cons.prems
    by (simp add: handleClick_def addBoundaryPoint_def getMousePosition_def Let_def)
  have b: "boundary ?s1 = boundary s @ [getMousePosition cx cy s]"
    using Cons.prems by (simp add: handleClick_def addBoundaryPoint_def Let_def)
  from Cons.IH [OF m] show ?case
    by (simp add: c b g)
qed

text \<open>
  C9 (as amended). With a committed boundary of at least 3 points, entering boundary
  drawing again leaves the boundary unchanged; every point placed afterwards is appended
  to the committed boundary at once, the old vertices staying in front, and finish keeps
  the boundary so extended and returns to mode ready. The old boundary is not replaced by
  a polygon of the new points.
\<close>

theorem boundary_redraw_extends:
  assumes "3 \<le> length (boundary s)" and "mode s \<noteq> Boundary"
  shows "boundary (startBoundary s) = boundary s \<and> mode (startBoundary s) = Boundary
         \<and> boundary (place_points cs (startBoundary s))
             = boundary s @ map (\<lambda>(cx, cy). getMousePosition cx cy s) cs
         \<and> mode (place_points cs (startBoundary s)) = Boundary
         \<and> boundary (startBoundary (place_points cs (startBoundary s)))
             = boundary s @ map (\<lambda>(cx, cy). getMousePosition cx cy s) cs
         \<and> mode (startBoundary (place_points cs (startBoundary s))) = Ready"
proof -
  let ?s1 = "startBoundary s"
  let ?s2 = "place_points cs ?s1"
  from assms(2) have s1: "?s1 = setMode Boundary s" by (simp add: startBoundary_def)
  then have b1: "boundary ?s1 = boundary s" and m1: "mode ?s1 = Boundary"
    by (simp_all add: setMode_def)
  have g: "getMousePosition x y ?s1 = getMousePosition x y s" for x y
    by (simp add: s1 setMode_def getMousePosition_def)
  from place_points_boundary [OF m1, of cs]
  have b2: "boundary ?s2 = boundary s @ map (\<lambda>(cx, cy). getMousePosition cx cy s) cs"
    and m2: "mode ?s2 = Boundary"
    by (simp_all add: b1 g)
  from b2 assms(1) have l: "3 \<le> length (boundary ?s2)" by simp
  from m2 l have "boundary (startBoundary ?s2) = boundary ?s2 \<and> mode (startBoundary ?s2) = Ready"
    by (simp add: startBoundary_def finishBoundary_def setMode_def Let_def)
  with b1 m1 b2 m2 show ?thesis by simp
qed

theorem boundary_redraw_extends_witness:
  "3 \<le> length (boundary (initCanvas\<lparr>boundary := three_points\<rparr>))
   \<and> mode (initCanvas\<lparr>boundary := three_points\<rparr>) \<noteq> Boundary
   \<and> boundary (startBoundary (initCanvas\<lparr>boundary := three_points\<rparr>)) = three_points
   \<and> boundary (startBoundary (place_points [(7, 7)]
        (startBoundary (initCanvas\<lparr>boundary := three_points\<rparr>))))
      = three_points @ [\<lparr>px = 7, py = 7\<rparr>]"
proof -
  have a: "3 \<le> length (boundary (initCanvas\<lparr>boundary := three_points\<rparr>))"
    by (simp add: three_points_def)
  have b: "mode (initCanvas\<lparr>boundary := three_points\<rparr>) \<noteq> Boundary"
    by (simp add: initCanvas_def)
  have g: "getMousePosition 7 7 (initCanvas\<lparr>boundary := three_points\<rparr>) = \<lparr>px = 7, py = 7\<rparr>"
    by (simp add: getMousePosition_def initCanvas_def)
  from boundary_redraw_extends [OF a b, of "[(7, 7)]"] a b g show ?thesis by simp
qed

text \<open>
  The claim as stated fails: one point placed after starting the boundary drawing again
  changes the committed boundary before any finish.
\<close>

theorem placed_point_changes_committed_boundary:
  "boundary (initCanvas\<lparr>boundary := three_points\<rparr>) = three_points
   \<and> mode (handleClick 40 40 (startBoundary (initCanvas\<lparr>boundary := three_points\<rparr>))) = Boundary
   \<and> boundary (handleClick 40 40 (startBoundary (initCanvas\<lparr>boundary := three_points\<rparr>)))
       = three_points @ [\<lparr>px = 40, py = 40\<rparr>]
   \<and> boundary (handleClick 40 40 (startBoundary (initCanvas\<lparr>boundary := three_points\<rparr>)))
       \<noteq> three_points"
  by (simp add: startBoundary_def handleClick_def setMode_def addBoundaryPoint_def
        getMousePosition_def initCanvas_def three_points_def Let_def)

end
